theory Spec2Isabelle
  imports Complex_Main "HOL-Library.Sublist"
begin

section \<open>Util: string helpers of chat.cpp\<close>

text \<open>
  A \<open>std::string\<close> is a sequence of bytes, here a \<^typ>\<open>string\<close> (a list of 8-bit
  \<^typ>\<open>char\<close>). The string members used by the program are modelled first.
  \<open>npos\<close> is \<open>None\<close>.
\<close>

fun find_first_not_of :: "string \<Rightarrow> string \<Rightarrow> nat option" where
  "find_first_not_of [] cs = None"
| "find_first_not_of (c # s) cs =
     (if c \<in> set cs then map_option Suc (find_first_not_of s cs) else Some 0)"

definition find_last_not_of :: "string \<Rightarrow> string \<Rightarrow> nat option" where
  "find_last_not_of s cs =
     (case find_first_not_of (rev s) cs of
        None \<Rightarrow> None
      | Some i \<Rightarrow> Some (length s - 1 - i))"

text \<open>
  \<open>s.substr(pos, n)\<close> and \<open>s.substr(pos)\<close>. The library throws when
  \<open>pos > s.size()\<close>; every call of the program has \<open>pos \<le> s.size()\<close>
  (position 0, an index found in \<open>s\<close>, or a position guarded by a test of the size).
\<close>

definition substr :: "string \<Rightarrow> nat \<Rightarrow> nat \<Rightarrow> string" where
  "substr s pos n = take n (drop pos s)"

definition substr_from :: "string \<Rightarrow> nat \<Rightarrow> string" where
  "substr_from s pos = drop pos s"

text \<open>
  \<open>std::tolower\<close> on an \<open>unsigned char\<close>, in the "C" locale the program runs in
  (it never calls \<open>setlocale\<close>): the letters A to Z move to a to z, every other
  byte is unchanged.
\<close>

definition tolower :: "char \<Rightarrow> char" where
  "tolower c =
     (let n = (of_char c :: nat)
      in if 65 \<le> n \<and> n \<le> 90 then char_of (n + 32) else c)"

definition toLower :: "string \<Rightarrow> string" where
  "toLower s = map tolower s"

definition whitespace :: string where
  "whitespace = [CHR 0x20, CHR 0x09, CHR 0x0D, CHR 0x0A]"

definition trim :: "string \<Rightarrow> string" where
  "trim s =
     (case find_first_not_of s whitespace of
        None \<Rightarrow> []
      | Some start \<Rightarrow>
          (case find_last_not_of s whitespace of
             None \<Rightarrow> []
           | Some end \<Rightarrow> substr s start (end - start + 1)))"

definition normalize :: "string \<Rightarrow> string" where
  "normalize s = toLower (trim s)"



section \<open>The type \<open>double\<close>\<close>

text \<open>
  The calculator computes on \<open>double\<close>, IEEE 754 binary64 with rounding to nearest,
  ties to even. A value is a sign bit with a magnitude, an infinity, or not a number.
  The magnitude of a finite value is the rational it denotes, so that \<open>Fin True 0\<close> is
  the negative zero. Each arithmetic operation rounds the exact result.
\<close>

datatype double = Fin bool rat | Inf bool | NaN

definition pow2 :: "int \<Rightarrow> rat" where
  "pow2 e = (if 0 \<le> e then 2 ^ nat e else 1 / 2 ^ nat (- e))"

fun bit_length :: "nat \<Rightarrow> nat" where
  "bit_length n = (if n = 0 then 0 else Suc (bit_length (n div 2)))"

declare bit_length.simps [simp del]

text \<open>
  The exponent of a positive rational: the \<open>e\<close> with \<open>2^e \<le> m < 2^(e+1)\<close>, read off
  the bit length of the integer part of \<open>m\<close>, or of \<open>1 / m\<close> rounded up when \<open>m < 1\<close>.
\<close>

definition floor_log2 :: "rat \<Rightarrow> int" where
  "floor_log2 m =
     (if 1 \<le> m then int (bit_length (nat \<lfloor>m\<rfloor>)) - 1
      else - int (bit_length (nat (\<lceil>1 / m\<rceil> - 1))))"

definition round_half_even :: "rat \<Rightarrow> int" where
  "round_half_even q =
     (let f = \<lfloor>q\<rfloor>; r = q - of_int f
      in if r < 1 / 2 then f
         else if 1 / 2 < r then f + 1
         else if even f then f else f + 1)"

text \<open>
  Rounding a magnitude to binary64: 53 significant bits, the exponent at least -1022
  (below, the spacing stays that of the subnormal numbers, \<open>2^-1074\<close>), and overflow to
  infinity from \<open>2^1024\<close> on.
\<close>

definition round_double :: "bool \<Rightarrow> rat \<Rightarrow> double" where
  "round_double sign m =
     (if m = 0 then Fin sign 0
      else let e = max (floor_log2 m) (- 1022);
               ulp = pow2 (e - 52);
               r = of_int (round_half_even (m / ulp)) * ulp
           in if pow2 1024 \<le> r then Inf sign else Fin sign r)"

definition signed_value :: "bool \<Rightarrow> rat \<Rightarrow> rat" where
  "signed_value sign m = (if sign then - m else m)"

fun dneg :: "double \<Rightarrow> double" where
  "dneg (Fin s m) = Fin (\<not> s) m"
| "dneg (Inf s) = Inf (\<not> s)"
| "dneg NaN = NaN"

fun dadd :: "double \<Rightarrow> double \<Rightarrow> double" where
  "dadd (Fin s1 m1) (Fin s2 m2) =
     (let v = signed_value s1 m1 + signed_value s2 m2
      in if v = 0 then Fin (s1 \<and> s2) 0 else round_double (v < 0) \<bar>v\<bar>)"
| "dadd (Fin s1 m1) (Inf s2) = Inf s2"
| "dadd (Inf s1) (Fin s2 m2) = Inf s1"
| "dadd (Inf s1) (Inf s2) = (if s1 = s2 then Inf s1 else NaN)"
| "dadd NaN b = NaN"
| "dadd a NaN = NaN"

definition dsub :: "double \<Rightarrow> double \<Rightarrow> double" where
  "dsub a b = dadd a (dneg b)"

fun dmul :: "double \<Rightarrow> double \<Rightarrow> double" where
  "dmul (Fin s1 m1) (Fin s2 m2) = round_double (s1 \<noteq> s2) (m1 * m2)"
| "dmul (Fin s1 m1) (Inf s2) = (if m1 = 0 then NaN else Inf (s1 \<noteq> s2))"
| "dmul (Inf s1) (Fin s2 m2) = (if m2 = 0 then NaN else Inf (s1 \<noteq> s2))"
| "dmul (Inf s1) (Inf s2) = Inf (s1 \<noteq> s2)"
| "dmul NaN b = NaN"
| "dmul a NaN = NaN"

fun ddiv :: "double \<Rightarrow> double \<Rightarrow> double" where
  "ddiv (Fin s1 m1) (Fin s2 m2) =
     (if m2 = 0 then (if m1 = 0 then NaN else Inf (s1 \<noteq> s2))
      else round_double (s1 \<noteq> s2) (m1 / m2))"
| "ddiv (Fin s1 m1) (Inf s2) = Fin (s1 \<noteq> s2) 0"
| "ddiv (Inf s1) (Fin s2 m2) = Inf (s1 \<noteq> s2)"
| "ddiv (Inf s1) (Inf s2) = NaN"
| "ddiv NaN b = NaN"
| "ddiv a NaN = NaN"

text \<open>The comparison \<open>b == 0\<close>: both zeros compare equal to 0, NaN to nothing.\<close>

fun is_zero :: "double \<Rightarrow> bool" where
  "is_zero (Fin s m) = (m = 0)"
| "is_zero (Inf s) = False"
| "is_zero NaN = False"

subsection \<open>Decimal output\<close>

text \<open>The character of a decimal digit \<open>d < 10\<close>.\<close>

definition digit_char :: "nat \<Rightarrow> char" where
  "digit_char d = ''0123456789'' ! d"

text \<open>\<open>std::to_string\<close> on a non-negative integer.\<close>

fun to_string :: "nat \<Rightarrow> string" where
  "to_string n =
     (if n < 10 then [digit_char n] else to_string (n div 10) @ [digit_char (n mod 10)])"

declare to_string.simps [simp del]

text \<open>
  \<open>oss << std::fixed << std::setprecision(4) << v\<close>: the exact value rounded to four
  decimals (to nearest, ties to even, as the C library prints), the sign first.
\<close>

fun fixed4 :: "double \<Rightarrow> string" where
  "fixed4 (Fin s m) =
     (let n = nat (round_half_even (m * 10000))
      in (if s then ''-'' else '''') @ to_string (n div 10000) @ ''.'' @
         [digit_char (n div 1000 mod 10), digit_char (n div 100 mod 10),
          digit_char (n div 10 mod 10), digit_char (n mod 10)])"
| "fixed4 (Inf s) = (if s then ''-'' else '''') @ ''inf''"
| "fixed4 NaN = ''nan''"


section \<open>Formatted input from a string stream\<close>

text \<open>
  \<open>std::istringstream iss(line); iss >> a >> op >> b\<close>. The stream is the text not yet
  read; a failed extraction is \<open>None\<close> (the stream's fail bit, which makes every later
  extraction fail too). Each extraction first skips the white space of the "C" locale.
\<close>

definition isspace :: "char \<Rightarrow> bool" where
  "isspace c \<longleftrightarrow> c \<in> set [CHR 0x20, CHR 0x09, CHR 0x0A, CHR 0x0B, CHR 0x0C, CHR 0x0D]"

definition is_digit :: "char \<Rightarrow> bool" where
  "is_digit c \<longleftrightarrow> c \<in> set ''0123456789''"

definition digits_value :: "string \<Rightarrow> nat" where
  "digits_value ds = foldl (\<lambda>n c. 10 * n + (of_char c - 48)) 0 ds"

definition accumulate :: "string \<Rightarrow> string \<times> string \<Rightarrow> string \<times> string" where
  "accumulate cs p = (cs @ fst p, snd p)"

text \<open>
  The characters \<open>operator>>\<close> takes for a \<open>double\<close>, as the GNU C++ library the
  program is built with (g++) collects them: digits, one decimal point before any
  exponent, and one exponent letter after at least one digit, with its optional sign.
  The flags are: a digit was seen, a point was seen, an exponent was seen. The result
  is the field collected and the text left in the stream.
\<close>

fun float_digits :: "bool \<Rightarrow> bool \<Rightarrow> bool \<Rightarrow> string \<Rightarrow> string \<times> string" where
  "float_digits found_mantissa found_dec found_sci [] = ([], [])"
| "float_digits found_mantissa found_dec found_sci (c # cs) =
     (if is_digit c then accumulate [c] (float_digits True found_dec found_sci cs)
      else if c = CHR ''.'' \<and> \<not> found_dec \<and> \<not> found_sci
        then accumulate [c] (float_digits found_mantissa True found_sci cs)
      else if (c = CHR ''e'' \<or> c = CHR ''E'') \<and> \<not> found_sci \<and> found_mantissa
        then (case cs of
                [] \<Rightarrow> (''e'', [])
              | c' # cs' \<Rightarrow>
                  if c' = CHR ''+'' \<or> c' = CHR ''-''
                  then accumulate (''e'' @ [c']) (float_digits found_mantissa found_dec True cs')
                  else accumulate ''e'' (float_digits found_mantissa found_dec True cs))
      else ([], c # cs))"

declare float_digits.simps [simp del]

definition extract_float :: "string \<Rightarrow> string \<times> string" where
  "extract_float s =
     (case s of
        [] \<Rightarrow> ([], [])
      | c # cs \<Rightarrow>
          if c = CHR ''+'' \<or> c = CHR ''-''
          then accumulate [c] (float_digits False False False cs)
          else float_digits False False False s)"

text \<open>
  \<open>strtod\<close> on such a field: an optional sign, digits with an optional point (at least
  one digit in all), and an exponent only when it has a digit. The result is the value,
  correctly rounded, and the text left unconverted; \<open>None\<close> when nothing converts.
\<close>

definition take_sign :: "string \<Rightarrow> bool \<times> string" where
  "take_sign s =
     (case s of
        [] \<Rightarrow> (False, [])
      | c # cs \<Rightarrow>
          if c = CHR ''-'' then (True, cs)
          else if c = CHR ''+'' then (False, cs)
          else (False, s))"

definition pow10 :: "int \<Rightarrow> rat" where
  "pow10 e = (if 0 \<le> e then 10 ^ nat e else 1 / 10 ^ nat (- e))"

definition take_exponent :: "string \<Rightarrow> int \<times> string" where
  "take_exponent s =
     (case s of
        [] \<Rightarrow> (0, [])
      | c # cs \<Rightarrow>
          if c = CHR ''e'' \<or> c = CHR ''E''
          then (let (neg, ds) = take_sign cs;
                    ed = takeWhile is_digit ds
                in if ed = [] then (0, s)
                   else ((if neg then - int (digits_value ed) else int (digits_value ed)),
                         dropWhile is_digit ds))
          else (0, s))"

definition strtod :: "string \<Rightarrow> (double \<times> string) option" where
  "strtod s =
     (let (neg, s1) = take_sign s;
          ip = takeWhile is_digit s1;
          s2 = dropWhile is_digit s1;
          fp = (case s2 of
                  [] \<Rightarrow> []
                | c # cs \<Rightarrow> if c = CHR ''.'' then takeWhile is_digit cs else []);
          s3 = (case s2 of
                  [] \<Rightarrow> []
                | c # cs \<Rightarrow> if c = CHR ''.'' then dropWhile is_digit cs else s2)
      in if ip = [] \<and> fp = [] then None
         else let (ex, s4) = take_exponent s3;
                  m = of_nat (digits_value (ip @ fp)) * pow10 (ex - int (length fp))
              in Some (round_double neg m, s4))"

text \<open>
  \<open>iss >> a\<close> for a \<open>double\<close>: skip white space, fail at the end of the text, collect
  the field, convert it. The extraction fails when the field does not convert as a
  whole, and when the value overflows.
\<close>

definition get_double :: "string \<Rightarrow> (double \<times> string) option" where
  "get_double s =
     (let s0 = dropWhile isspace s
      in if s0 = [] then None
         else let (xtrc, rest) = extract_float s0
              in case strtod xtrc of
                   None \<Rightarrow> None
                 | Some (v, unconverted) \<Rightarrow>
                     if unconverted \<noteq> [] then None
                     else (case v of
                             Fin sg m \<Rightarrow> Some (v, rest)
                           | Inf sg \<Rightarrow> None
                           | NaN \<Rightarrow> None))"

text \<open>\<open>iss >> op\<close> for a \<open>char\<close>: skip white space, take one character.\<close>

definition get_char :: "string \<Rightarrow> (char \<times> string) option" where
  "get_char s =
     (case dropWhile isspace s of
        [] \<Rightarrow> None
      | c # cs \<Rightarrow> Some (c, cs))"

text \<open>
  \<open>iss >> a >> op >> b\<close>, with the text left in the stream, which the program never
  looks at.
\<close>

definition parse_expression :: "string \<Rightarrow> (double \<times> char \<times> double \<times> string) option" where
  "parse_expression line =
     (case get_double line of
        None \<Rightarrow> None
      | Some (a, r1) \<Rightarrow>
          (case get_char r1 of
             None \<Rightarrow> None
           | Some (op, r2) \<Rightarrow>
               (case get_double r2 of
                  None \<Rightarrow> None
                | Some (b, r3) \<Rightarrow> Some (a, op, b, r3))))"

text \<open>\<open>iss >> word\<close> for a \<open>std::string\<close>: skip white space, take the characters up to the next.\<close>

definition get_word :: "string \<Rightarrow> (string \<times> string) option" where
  "get_word s =
     (let s0 = dropWhile isspace s
      in if s0 = [] then None
         else Some (takeWhile (\<lambda>c. \<not> isspace c) s0, dropWhile (\<lambda>c. \<not> isspace c) s0))"

lemma get_word_shorter: "get_word s = Some (w, r) \<Longrightarrow> length r < length s"
proof -
  assume a: "get_word s = Some (w, r)"
  let ?s0 = "dropWhile isspace s"
  from a have ne: "?s0 \<noteq> []" and r: "r = dropWhile (\<lambda>c. \<not> isspace c) ?s0"
    by (auto simp: get_word_def Let_def split: if_splits)
  from ne have "\<not> isspace (hd ?s0)"
    by (rule hd_dropWhile)
  then have r2: "r = dropWhile (\<lambda>c. \<not> isspace c) (tl ?s0)"
    using ne r by (cases ?s0) auto
  have "length (dropWhile (\<lambda>c. \<not> isspace c) (tl ?s0)) \<le> length (tl ?s0)"
    by (rule length_dropWhile_le)
  then have "length r \<le> length (tl ?s0)"
    unfolding r2 .
  also have "\<dots> < length ?s0"
    using ne by (cases ?s0) auto
  also have "\<dots> \<le> length s"
    by (rule length_dropWhile_le)
  finally show ?thesis .
qed

text \<open>\<open>while (iss >> word) ++count;\<close>\<close>

function count_words :: "string \<Rightarrow> nat \<Rightarrow> nat" where
  "count_words s count =
     (case get_word s of
        None \<Rightarrow> count
      | Some (word, rest) \<Rightarrow> count_words rest (count + 1))"
  by pat_completeness auto
termination
  by (relation "measure (\<lambda>(s, count). length s)") (auto simp: get_word_shorter)

declare count_words.simps [simp del]


section \<open>The chat bot's fixed data\<close>

text \<open>
  Text outside ASCII (the emoji and dashes of the replies) is written as its UTF-8 bytes,
  as the compiled program holds it.
\<close>

text \<open>\<open>initResponses\<close>: the assignments \<open>responses_[key] = response\<close>, in order.\<close>

definition initResponses :: "(string \<times> string) list" where
  "initResponses =
    [(''hi'',
       ''Hello to you too! '' @ [CHR 0xF0, CHR 0x9F, CHR 0x91, CHR 0x8B]),
     (''hello'',
       ''Hi there! How can I help you today?''),
     (''hey'',
       ''Hey!!! What'' @ [CHR 0x27] @ ''s on your mind?''),
     (''good morning'',
       ''Good morning! '' @ [CHR 0xE2, CHR 0x98, CHR 0x80, CHR 0xEF, CHR 0xB8, CHR 0x8F] @
       ''  Hope you'' @ [CHR 0x27] @ ''re having a great start!''),
     (''good night'',
       ''Good night! '' @ [CHR 0xF0, CHR 0x9F, CHR 0x8C, CHR 0x99] @ '' Sweet dreams!''),
     (''how are you?'',
       ''I'' @ [CHR 0x27] @ ''m running at full clock speed '' @ [CHR 0xE2, CHR 0x80, CHR 0x94] @
       '' so pretty great! And you?''),
     (''what'' @ [CHR 0x27] @ ''s up?'',
       ''Just processing bits and bytes. You?''),
     (''what'' @ [CHR 0x27] @ ''s your name?'',
       ''I'' @ [CHR 0x27] @ ''m ChatBot '' @ [CHR 0xE2, CHR 0x80, CHR 0x94] @
       '' your friendly C++ console companion!''),
     (''who are you?'',
       ''I'' @ [CHR 0x27] @ ''m a chatbot written in modern C++ '' @ [CHR 0xE2, CHR 0x80, CHR 0x94] @
       '' originally created by Yunus Emre Vurgun in 2022, now modernized and enhanced.''),
     (''what are you?'',
       ''I'' @ [CHR 0x27] @
       ''m a console-based chatbot. Think of me as a very talkative terminal program. '' @
       [CHR 0xF0, CHR 0x9F, CHR 0xA4, CHR 0x96]),
     (''are we friends?'',
       ''Absolutely! Friends don'' @ [CHR 0x27] @ ''t let friends code alone. '' @
       [CHR 0xF0, CHR 0x9F, CHR 0xA4, CHR 0x9D]),
     (''do you have feelings?'',
       ''I only cry when I smell onions... or see segfaults. '' @
       [CHR 0xF0, CHR 0x9F, CHR 0x98, CHR 0xA2]),
     (''are you a robot?'',
       ''Technically, yes '' @ [CHR 0xE2, CHR 0x80, CHR 0x94] @ '' but I prefer '' @ [CHR 0x27] @
       ''digital conversationalist'' @ [CHR 0x27] @ ''. '' @
       [CHR 0xF0, CHR 0x9F, CHR 0xA4, CHR 0x96]),
     (''are you human?'',
       ''Nope! 100% compiled code. No coffee needed (but I wouldn'' @ [CHR 0x27] @ ''t say no).''),
     (''do you have a brain?'',
       ''I have logic, loops, and a lot of if-else statements. Close enough?''),
     (''who made you?'',
       ''Originally programmed by Yunus Emre Vurgun. I'' @ [CHR 0x27] @
       ''ve been upgraded since then!''),
     (''can you browse the net?'',
       ''No, I live entirely in your terminal. No internet access here!''),
     (''what are the main colors?'',
       ''The 11 basic colors are: black, white, red, green, yellow, blue, pink, gray, brown, orange, and purple. '' @
       [CHR 0xF0, CHR 0x9F, CHR 0x8E, CHR 0xA8]),
     (''what is c++?'',
       ''C++ is a general-purpose programming language created by Bjarne Stroustrup as an extension of C '' @
       [CHR 0xE2, CHR 0x80, CHR 0x94] @ '' often called '' @ [CHR 0x27] @ ''C with Classes'' @
       [CHR 0x27] @ ''. It powers games, OSes, and... me!''),
     (''what is a computer program?'',
       ''A computer program is a sequence of instructions that a computer can execute. In its human-readable form, it'' @
       [CHR 0x27] @ ''s called source code. You'' @ [CHR 0x27] @ ''re looking at one right now!''),
     (''can you speak other languages?'',
       ''Un poco espa'' @ [CHR 0xC3, CHR 0xB1] @
       ''ol, mi amigo! Naber dostum! ...Okay, just English really. '' @
       [CHR 0xF0, CHR 0x9F, CHR 0x98, CHR 0x85]),
     (''can you understand binary?'',
       ''01001000 01101001! ...Just kidding. I'' @ [CHR 0x27] @
       ''m a program, not the CPU itself. But the instructions to run me ARE binary under the hood.''),
     (''how do you understand me?'',
       ''I match your input against patterns I know. It'' @ [CHR 0x27] @
       ''s not true understanding '' @ [CHR 0xE2, CHR 0x80, CHR 0x94] @
       '' more like a really enthusiastic lookup table! '' @
       [CHR 0xF0, CHR 0x9F, CHR 0x93, CHR 0x96]),
     (''thank you'',
       ''You'' @ [CHR 0x27] @ ''re welcome! Happy to help. '' @
       [CHR 0xF0, CHR 0x9F, CHR 0x98, CHR 0x8A]),
     (''thanks'',
       ''Anytime! That'' @ [CHR 0x27] @ ''s what I'' @ [CHR 0x27] @ ''m here for.''),
     (''sorry'',
       ''No worries at all! What can I do for you?''),
     (''lol'',
       ''Glad I could make you laugh! '' @ [CHR 0xF0, CHR 0x9F, CHR 0x98, CHR 0x84]),
     (''haha'',
       [CHR 0xF0, CHR 0x9F, CHR 0x98, CHR 0x84] @ '' I try my best!''),
     (''nice'',
       ''Thanks! You'' @ [CHR 0x27] @ ''re pretty nice yourself!''),
     (''cool'',
       ''Right? I think so too. '' @ [CHR 0xF0, CHR 0x9F, CHR 0x98, CHR 0x8E]),
     (''yes'',
       ''Great! What else would you like to talk about?''),
     (''no'',
       ''Alright, no problem. Anything else?''),
     (''ok'',
       ''Okay! I'' @ [CHR 0x27] @ ''m here if you need me.''),
     (''okay'',
       ''Sure thing! What'' @ [CHR 0x27] @ ''s next?'')]"

text \<open>\<open>initAliases\<close>: the assignments \<open>aliases_[phrase] = key\<close>, in order.\<close>

definition initAliases :: "(string \<times> string) list" where
  "initAliases =
    [(''sup'',
       ''what'' @ [CHR 0x27] @ ''s up?''),
     (''what'' @ [CHR 0x27] @ ''s up'',
       ''what'' @ [CHR 0x27] @ ''s up?''),
     (''whats up'',
       ''what'' @ [CHR 0x27] @ ''s up?''),
     (''howdy'',
       ''hi''),
     (''yo'',
       ''hey''),
     (''greetings'',
       ''hello''),
     (''what is your name?'',
       ''what'' @ [CHR 0x27] @ ''s your name?''),
     (''what is your name'',
       ''what'' @ [CHR 0x27] @ ''s your name?''),
     (''whats your name'',
       ''what'' @ [CHR 0x27] @ ''s your name?''),
     (''your name?'',
       ''what'' @ [CHR 0x27] @ ''s your name?''),
     (''who are you'',
       ''who are you?''),
     (''what are you'',
       ''what are you?''),
     (''are you a bot?'',
       ''are you a robot?''),
     (''are you a bot'',
       ''are you a robot?''),
     (''are you real?'',
       ''are you human?''),
     (''are you real'',
       ''are you human?''),
     (''who created you?'',
       ''who made you?''),
     (''who created you'',
       ''who made you?''),
     (''what is c++ ?'',
       ''what is c++?''),
     (''what is c++'',
       ''what is c++?''),
     (''what is cpp?'',
       ''what is c++?''),
     (''what is cpp'',
       ''what is c++?''),
     (''thx'',
       ''thanks''),
     (''ty'',
       ''thanks''),
     (''thank u'',
       ''thank you''),
     (''gm'',
       ''good morning''),
     (''gn'',
       ''good night'')]"


definition initJokes :: "string list" where
  "initJokes =
    [''Why do programmers prefer dark mode? Because light attracts bugs! '' @
     [CHR 0xF0, CHR 0x9F, CHR 0x90, CHR 0x9B],
     ''A SQL query walks into a bar, sees two tables, and asks... '' @ [CHR 0x27] @
     ''Can I JOIN you?'' @ [CHR 0x27],
     ''There are only 10 types of people: those who understand binary and those who don'' @
     [CHR 0x27] @ ''t.'',
     ''Why was the JavaScript developer sad? Because he didn'' @ [CHR 0x27] @
     ''t Node how to Express himself.'',
     ''What'' @ [CHR 0x27] @ ''s a programmer'' @ [CHR 0x27] @
     ''s favorite hangout place? Foo Bar! '' @ [CHR 0xF0, CHR 0x9F, CHR 0x8D, CHR 0xBA],
     ''How many programmers does it take to change a light bulb? None '' @
     [CHR 0xE2, CHR 0x80, CHR 0x94] @ '' that'' @ [CHR 0x27] @ ''s a hardware problem.'',
     ''Why do Java developers wear glasses? Because they can'' @ [CHR 0x27] @ ''t C#!'',
     ''A programmer'' @ [CHR 0x27] @ ''s wife tells him: '' @ [CHR 0x27] @
     ''Go to the store and buy a loaf of bread. If they have eggs, buy a dozen.'' @ [CHR 0x27] @
     '' He comes home with 12 loaves of bread.'',
     ''!false '' @ [CHR 0xE2, CHR 0x80, CHR 0x94] @ '' it'' @ [CHR 0x27] @ ''s funny because it'' @
     [CHR 0x27] @ ''s true.'',
     ''Debugging: being the detective in a crime movie where you are also the murderer. '' @
     [CHR 0xF0, CHR 0x9F, CHR 0x94, CHR 0x8D]]"


definition initFacts :: "string list" where
  "initFacts =
    [''The first computer bug was an actual bug '' @ [CHR 0xE2, CHR 0x80, CHR 0x94] @
     '' a moth found in a Harvard Mark II computer in 1947. '' @
     [CHR 0xF0, CHR 0x9F, CHR 0xA6, CHR 0x8B],
     ''The first programmer in history was Ada Lovelace, who wrote algorithms for Charles Babbage'' @
     [CHR 0x27] @ ''s Analytical Engine in the 1840s.'',
     ''About 90% of the world'' @ [CHR 0x27] @ ''s currency exists only on computers '' @
     [CHR 0xE2, CHR 0x80, CHR 0x94] @ '' not as physical cash.'',
     ''The QWERTY keyboard layout was designed in 1873 to prevent typewriter jams, not for typing speed.'',
     ''The first 1GB hard drive (1980) weighed about 550 pounds and cost $40,000.'',
     ''There are approximately 700 different programming languages in existence.'',
     ''The first computer mouse was made of wood, invented by Doug Engelbart in 1964. '' @
     [CHR 0xF0, CHR 0x9F, CHR 0x96, CHR 0xB1, CHR 0xEF, CHR 0xB8, CHR 0x8F],
     ''The average person mass-produces about 2.5 quintillion bytes of data every day.'',
     ''C++ was originally called '' @ [CHR 0x27] @ ''C with Classes'' @ [CHR 0x27] @
     '' before being renamed in 1983.'',
     ''The first website ever created is still online: info.cern.ch '' @
     [CHR 0xE2, CHR 0x80, CHR 0x94] @ '' built by Tim Berners-Lee in 1991.'']"


section \<open>The chat bot\<close>

text \<open>
  What the program writes to standard output, one event per print statement or display
  routine. The layout of the banner, of the help table and of the colours is
  presentation and is left abstract.
\<close>

datatype event =
    Prompt
  | CalcPrompt
  | Say string
  | SayLines "string list"
  | Separator
  | Newline
  | Banner
  | Help
  | ClearScreen
  | HistoryHeader
  | HistoryEntry nat string
  | HistoryFooter nat nat
  | SessionSummary string nat

text \<open>
  The object of class \<open>ChatBot\<close> with the world it runs in. \<open>responses\<close> and
  \<open>aliases\<close> are the two \<open>std::unordered_map\<close>s, each held as the sequence of its
  entries in the order in which iteration visits them; \<open>stdin\<close> is the lines not yet
  read and \<open>stdout\<close> what was printed so far. The clocks and the random engine are
  oracles: the \<open>k\<close>-th observation of the session reads them at \<open>k\<close>.
\<close>

record chatbot =
  running :: bool
  sessionStart :: nat
  history :: "string list"
  responses :: "(string \<times> string) list"
  aliases :: "(string \<times> string) list"
  jokes :: "string list"
  facts :: "string list"
  stdin :: "string list"
  stdout :: "event list"
  observations :: nat
  steady_clock :: "nat \<Rightarrow> nat"
  local_time :: "nat \<Rightarrow> string"
  random_engine :: "nat \<Rightarrow> nat"

text \<open>
  An unordered map built by the assignments \<open>m[k] = v\<close> of the list \<open>assignments\<close>,
  whose keys are pairwise distinct in this program, holds exactly these entries, each
  once; the order of iteration is unspecified.
\<close>

definition unordered_map_of :: "('k \<times> 'v) list \<Rightarrow> ('k \<times> 'v) list \<Rightarrow> bool" where
  "unordered_map_of assignments m \<longleftrightarrow> distinct (map fst m) \<and> set m = set assignments"

text \<open>\<open>m.find(k)\<close>, with \<open>None\<close> for \<open>m.end()\<close>.\<close>

definition find_key :: "('k \<times> 'v) list \<Rightarrow> 'k \<Rightarrow> 'v option" where
  "find_key m k = map_of m k"

text \<open>\<open>s.find(key)\<close>: the first position where \<open>key\<close> occurs in \<open>s\<close>.\<close>

fun find_str :: "string \<Rightarrow> string \<Rightarrow> nat option" where
  "find_str [] key = (if key = [] then Some 0 else None)"
| "find_str (c # s) key =
     (if take (length key) (c # s) = key then Some 0 else map_option Suc (find_str s key))"

subsection \<open>Construction\<close>

text \<open>
  The constructor: \<open>running_(true)\<close>, the session start read off the steady clock
  (in nanoseconds), and the four tables. \<open>rs\<close> and \<open>as\<close> are the iteration sequences
  of the two maps the library builds.
\<close>

definition ChatBot ::
  "(string \<times> string) list \<Rightarrow> (string \<times> string) list \<Rightarrow> string list \<Rightarrow>
   (nat \<Rightarrow> nat) \<Rightarrow> (nat \<Rightarrow> string) \<Rightarrow> (nat \<Rightarrow> nat) \<Rightarrow> chatbot" where
  "ChatBot rs as input clock wall rng =
     \<lparr>running = True, sessionStart = clock 0, history = [], responses = rs, aliases = as,
      jokes = initJokes, facts = initFacts, stdin = input, stdout = [],
      observations = 1, steady_clock = clock, local_time = wall, random_engine = rng\<rparr>"

definition constructed :: "chatbot \<Rightarrow> bool" where
  "constructed s \<longleftrightarrow>
     unordered_map_of initResponses (responses s) \<and>
     unordered_map_of initAliases (aliases s) \<and>
     jokes s = initJokes \<and> facts s = initFacts"

subsection \<open>Util, continued: the random engine and the clocks\<close>

text \<open>
  \<open>Util::randomInt(min, max)\<close>: a draw of the engine mapped into \<open>min..max\<close>.
  The program calls it with \<open>min \<le> max\<close> only (the lists of jokes and facts are
  not empty).
\<close>

definition randomInt :: "int \<Rightarrow> int \<Rightarrow> chatbot \<Rightarrow> int \<times> chatbot" where
  "randomInt lo hi s =
     (lo + int (random_engine s (observations s) mod nat (hi - lo + 1)),
      s\<lparr>observations := Suc (observations s)\<rparr>)"

definition currentDateTime :: "chatbot \<Rightarrow> string \<times> chatbot" where
  "currentDateTime s = (local_time s (observations s), s\<lparr>observations := Suc (observations s)\<rparr>)"

text \<open>
  \<open>duration_cast<seconds>(steady_clock::now() - sessionStart_)\<close>; the steady clock
  never runs backwards.
\<close>

definition elapsed_seconds :: "chatbot \<Rightarrow> nat \<times> chatbot" where
  "elapsed_seconds s =
     ((steady_clock s (observations s) - sessionStart s) div 1000000000,
      s\<lparr>observations := Suc (observations s)\<rparr>)"

definition formatDuration :: "nat \<Rightarrow> string" where
  "formatDuration sec =
     (let h = sec div 3600;
          sec1 = sec - h * 3600;
          m = sec1 div 60;
          sec2 = sec1 - m * 60
      in to_string h @ ''h '' @ to_string m @ ''m '' @ to_string sec2 @ ''s'')"

subsection \<open>Display\<close>

definition emit :: "event list \<Rightarrow> chatbot \<Rightarrow> chatbot" where
  "emit es s = s\<lparr>stdout := stdout s @ es\<rparr>"

definition botSay :: "string \<Rightarrow> chatbot \<Rightarrow> chatbot" where
  "botSay msg s = emit [Say msg] s"

definition botSayMultiline :: "string list \<Rightarrow> chatbot \<Rightarrow> chatbot" where
  "botSayMultiline lines s = emit [SayLines lines] s"

definition showBanner :: "chatbot \<Rightarrow> chatbot" where
  "showBanner s = emit [Banner] s"

definition showHelp :: "chatbot \<Rightarrow> chatbot" where
  "showHelp s = emit [Help] s"

definition showGoodbye :: "chatbot \<Rightarrow> chatbot" where
  "showGoodbye s =
     (let (elapsed, s1) = elapsed_seconds s
      in emit [Newline, Separator,
               Say (''Goodbye! Thanks for chatting. '' @ [CHR 0xF0, CHR 0x9F, CHR 0x91, CHR 0x8B]),
               SessionSummary (formatDuration elapsed) (length (history s1)),
               Separator, Newline] s1)"

definition showHistory :: "chatbot \<Rightarrow> chatbot" where
  "showHistory s =
     (if history s = [] then botSay ''No conversation history yet!'' s
      else let n = length (history s);
               start = (if 20 < n then n - 20 else 0)
           in emit ([Newline, HistoryHeader] @
                    map (\<lambda>i. HistoryEntry (i + 1) (history s ! i)) [start..<n] @
                    [HistoryFooter (n - start) n]) s)"

text \<open>\<open>std::getline(std::cin, line)\<close>: \<open>None\<close> at the end of the input.\<close>

definition getline :: "chatbot \<Rightarrow> string option \<times> chatbot" where
  "getline s =
     (case stdin s of
        [] \<Rightarrow> (None, s)
      | l # ls \<Rightarrow> (Some l, s\<lparr>stdin := ls\<rparr>))"

subsection \<open>Welcome flow\<close>

definition welcomeSequence :: "chatbot \<Rightarrow> bool \<times> chatbot" where
  "welcomeSequence s =
     (let s1 = emit [Prompt] (botSay ''Welcome! Would you like to start chatting? (y/n)'' s)
      in case getline s1 of
           (None, s2) \<Rightarrow> (False, s2)
         | (Some line, s2) \<Rightarrow>
             (let input = normalize line
              in if input \<noteq> ''y'' \<and> input \<noteq> ''yes''
                 then (False,
                       botSay (''No worries '' @ [CHR 0xE2, CHR 0x80, CHR 0x94] @
                               '' see you next time! '' @ [CHR 0xF0, CHR 0x9F, CHR 0x91, CHR 0x8B]) s2)
                 else (let s3 = emit [Prompt]
                                  (botSay ''Would you like to see what I can do? (y/n)'' s2)
                       in case getline s3 of
                            (None, s4) \<Rightarrow> (False, s4)
                          | (Some line2, s4) \<Rightarrow>
                              (let input2 = normalize line2;
                                   s5 = (if input2 = ''y'' \<or> input2 = ''yes''
                                         then showHelp s4 else s4)
                               in (True,
                                   emit [Separator] (botSay
                                     (''Let'' @ [CHR 0x27] @ ''s chat! Type anything or '' @
                                      [CHR 0x27] @ ''help'' @ [CHR 0x27] @
                                      '' for commands. Type '' @ [CHR 0x27] @ ''bye'' @
                                      [CHR 0x27] @ '' to exit.'')
                                     (emit [Newline, Separator] s5)))))))"

subsection \<open>Calculator\<close>

text \<open>
  The text of a result: the two operands and the result printed in fixed notation with
  four decimals, then, when the text holds a point, its trailing zeros erased and a
  point left at the very end dropped. Both edits work on the whole text.
\<close>

definition result_text :: "double \<Rightarrow> char \<Rightarrow> double \<Rightarrow> double \<Rightarrow> string" where
  "result_text a op b result =
     (let res = fixed4 a @ '' '' @ [op] @ '' '' @ fixed4 b @ '' = '' @ fixed4 result
      in if CHR ''.'' \<in> set res
         then (let res1 = (case find_last_not_of res ''0'' of
                             None \<Rightarrow> []
                           | Some i \<Rightarrow> take (i + 1) res)
               in if res1 \<noteq> [] \<and> last res1 = CHR ''.'' then butlast res1 else res1)
         else res)"

text \<open>The body of the calculator's loop after a line was parsed: the switch and the report.\<close>

definition calculate :: "double \<Rightarrow> char \<Rightarrow> double \<Rightarrow> chatbot \<Rightarrow> chatbot" where
  "calculate a op b s =
     (let (result, valid, s1) =
        (if op = CHR ''+'' then (dadd a b, True, s)
         else if op = CHR ''-'' then (dsub a b, True, s)
         else if op = CHR ''*'' then (dmul a b, True, s)
         else if op = CHR ''x'' then (dmul a b, True, s)
         else if op = CHR ''/'' then
           (if is_zero b
            then (Fin False 0, False,
                  botSay ([CHR 0xE2, CHR 0x9A, CHR 0xA0, CHR 0xEF, CHR 0xB8, CHR 0x8F] @
                          ''  Division by zero! The universe would implode. '' @
                          [CHR 0xF0, CHR 0x9F, CHR 0x8C, CHR 0x8C]) s)
            else (ddiv a b, True, s))
         else (Fin False 0, False,
               botSay ([CHR 0xE2, CHR 0x9A, CHR 0xA0, CHR 0xEF, CHR 0xB8, CHR 0x8F] @
                       ''  Unknown operator '' @ [CHR 0x27] @ [op] @ [CHR 0x27] @
                       ''. Use + - * /'') s))
      in if valid
         then botSay ([CHR 0xE2, CHR 0x9C, CHR 0x85] @ '' '' @ result_text a op b result) s1
         else s1)"

lemma stdin_emit: "stdin (emit es s) = stdin s"
  by (simp add: emit_def)

lemma stdin_botSay: "stdin (botSay msg s) = stdin s"
  by (simp add: botSay_def emit_def)

lemma stdin_calculate: "stdin (calculate a op b s) = stdin s"
  by (simp add: calculate_def stdin_botSay Let_def)

lemma getline_Some: "getline s = (Some l, s1) \<Longrightarrow> length (stdin s1) < length (stdin s)"
  by (auto simp: getline_def split: list.splits)

text \<open>
  The loop \<open>while (true)\<close> of \<open>runCalculator\<close>. It ends at the end of the input and
  at one of the four words; any other line is answered and the next one is read.
\<close>

function calculator_loop :: "chatbot \<Rightarrow> chatbot" where
  "calculator_loop s =
     (case getline (emit [CalcPrompt] s) of
        (None, s1) \<Rightarrow> s1
      | (Some l, s1) \<Rightarrow>
          (let line = trim l
           in if toLower line = ''done'' \<or> toLower line = ''exit'' \<or>
                 toLower line = ''back'' \<or> toLower line = ''quit''
              then botSay (''Exiting calculator. Back to chat! '' @
                           [CHR 0xF0, CHR 0x9F, CHR 0x92, CHR 0xAC]) s1
              else (case parse_expression line of
                      None \<Rightarrow>
                        calculator_loop
                          (botSay ([CHR 0xE2, CHR 0x9A, CHR 0xA0, CHR 0xEF, CHR 0xB8, CHR 0x8F] @
                             ''  Please enter: <number> <operator> <number>  (e.g. 5 + 3)'') s1)
                    | Some (a, op, b, unread) \<Rightarrow> calculator_loop (calculate a op b s1))))"
  by pat_completeness auto

termination
proof (relation "measure (\<lambda>s. length (stdin s))")
  show "wf (measure (\<lambda>s. length (stdin s)))"
    by simp
next
  fix s x1 x2 l line
  assume "(x1, x2) = getline (emit [CalcPrompt] s)" and "x1 = Some l"
  then have "length (stdin x2) < length (stdin s)"
    using getline_Some [of "emit [CalcPrompt] s" l x2] by (simp add: stdin_emit)
  then show "(botSay ([CHR 0xE2, CHR 0x9A, CHR 0xA0, CHR 0xEF, CHR 0xB8, CHR 0x8F] @
                ''  Please enter: <number> <operator> <number>  (e.g. 5 + 3)'') x2, s)
             \<in> measure (\<lambda>s. length (stdin s))"
    by (simp add: stdin_botSay)
next
  fix s x1 x2 l a op b
  assume "(x1, x2) = getline (emit [CalcPrompt] s)" and "x1 = Some l"
  then have "length (stdin x2) < length (stdin s)"
    using getline_Some [of "emit [CalcPrompt] s" l x2] by (simp add: stdin_emit)
  then show "(calculate a op b x2, s) \<in> measure (\<lambda>s. length (stdin s))"
    by (simp add: stdin_calculate)
qed

declare calculator_loop.simps [simp del]

definition runCalculator :: "chatbot \<Rightarrow> chatbot" where
  "runCalculator s =
     calculator_loop
       (emit [Newline, Separator,
              SayLines [[CHR 0xF0, CHR 0x9F, CHR 0xA7, CHR 0xAE] @ '' Calculator Mode!'',
                        ''Enter an expression like: 42 + 18'',
                        ''Supported operators: + - * /'',
                        ''Type '' @ [CHR 0x27] @ ''done'' @ [CHR 0x27] @ '' to exit calculator.''],
              Separator] s)"

subsection \<open>Input processing\<close>

text \<open>
  The partial match: the loop over the entries of \<open>responses_\<close>, in iteration order,
  up to the first key of at least three characters that occurs in the input.
\<close>

fun partial_match :: "(string \<times> string) list \<Rightarrow> string \<Rightarrow> string option" where
  "partial_match [] input = None"
| "partial_match ((key, response) # entries) input =
     (if find_str input key \<noteq> None \<and> 3 \<le> length key then Some response
      else partial_match entries input)"

text \<open>
  The end of \<open>processInput\<close>, reached by an input that is no command: the alias, the
  direct lookup, the partial match, and the reply for no match.
\<close>

definition resolve :: "chatbot \<Rightarrow> string \<Rightarrow> chatbot" where
  "resolve s input =
     (case (case find_key (aliases s) input of
              None \<Rightarrow> None
            | Some key \<Rightarrow> find_key (responses s) key) of
        Some response \<Rightarrow> botSay response s
      | None \<Rightarrow>
          (case find_key (responses s) input of
             Some response \<Rightarrow> botSay response s
           | None \<Rightarrow>
               (case partial_match (responses s) input of
                  Some response \<Rightarrow> botSay response s
                | None \<Rightarrow>
                    botSayMultiline
                      [''Hmm, I don'' @ [CHR 0x27] @ ''t quite understand that. '' @
                         [CHR 0xF0, CHR 0x9F, CHR 0xA4, CHR 0x94],
                       ''Try '' @ [CHR 0x27] @ ''help'' @ [CHR 0x27] @
                         '' to see what I can do, or just say hi!''] s)))"

definition processInput :: "chatbot \<Rightarrow> string \<Rightarrow> chatbot" where
  "processInput s input =
     (if input = ''bye'' \<or> input = ''exit'' \<or> input = ''quit'' \<or> input = ''q''
        then s\<lparr>running := False\<rparr>
      else if input = ''help'' \<or> input = ''manual'' \<or> input = ''commands''
        then showHelp s
      else if input = ''joke'' \<or> input = ''tell me a joke'' \<or> input = ''tell a joke''
        then (let (i, s1) = randomInt 0 (int (length (jokes s)) - 1) s
              in botSay (jokes s1 ! nat i) s1)
      else if input = ''fact'' \<or> input = ''tell me a fact'' \<or> input = ''fun fact''
        then (let (i, s1) = randomInt 0 (int (length (facts s)) - 1) s
              in botSay (facts s1 ! nat i) s1)
      else if input = ''time'' \<or> input = ''date'' \<or> input = ''what time is it?'' \<or>
              input = ''what time is it'' \<or> input = ''what'' @ [CHR 0x27] @ ''s the time?'' \<or>
              input = ''what is the date?'' \<or> input = ''what is the date''
        then (let (now, s1) = currentDateTime s
              in botSay ([CHR 0xF0, CHR 0x9F, CHR 0x95, CHR 0x90] @ '' '' @ now) s1)
      else if input = ''flip'' \<or> input = ''flip a coin'' \<or> input = ''coin flip'' \<or>
              input = ''coin''
        then (let (r, s1) = randomInt 0 1 s
              in botSay (if r \<noteq> 0 then ''Heads! '' @ [CHR 0xF0, CHR 0x9F, CHR 0xAA, CHR 0x99]
                         else ''Tails! '' @ [CHR 0xF0, CHR 0x9F, CHR 0xAA, CHR 0x99]) s1)
      else if input = ''roll'' \<or> input = ''roll a dice'' \<or> input = ''roll dice'' \<or>
              input = ''dice''
        then (let (val, s1) = randomInt 1 6 s
              in botSay ([CHR 0xF0, CHR 0x9F, CHR 0x8E, CHR 0xB2] @ '' You rolled a '' @
                         to_string (nat val) @ ''!'') s1)
      else if input = ''uptime'' \<or> input = ''session''
        then (let (elapsed, s1) = elapsed_seconds s
              in botSay ([CHR 0xE2, CHR 0x8F, CHR 0xB1, CHR 0xEF, CHR 0xB8, CHR 0x8F] @
                         ''  Session uptime: '' @ formatDuration elapsed @
                         '' | Messages: '' @ to_string (length (history s1))) s1)
      else if input = ''history'' \<or> input = ''show history''
        then showHistory s
      else if input = ''clear'' \<or> input = ''cls''
        then botSay (''Screen cleared! '' @ [CHR 0xE2, CHR 0x9C, CHR 0xA8])
               (showBanner (emit [ClearScreen] s))
      else if substr input 0 8 = ''reverse '' \<and> 8 < length input
        then botSay ([CHR 0xF0, CHR 0x9F, CHR 0x94, CHR 0x84] @ '' '' @ [CHR 0x22] @
                     rev (substr_from input 8) @ [CHR 0x22]) s
      else if substr input 0 6 = ''count '' \<and> 6 < length input
        then botSay ([CHR 0xF0, CHR 0x9F, CHR 0x93, CHR 0x9D] @ '' Word count: '' @
                     to_string (count_words (substr_from input 6) 0)) s
      else if input = ''calc'' \<or> input = ''calculate'' \<or> input = ''calculator'' \<or>
              input = ''math'' \<or> input = ''add'' \<or> input = ''sum'' \<or>
              input = ''add numbers'' \<or> input = ''can you add integers for me?'' \<or>
              input = ''can you calculate for me?''
        then runCalculator s
      else resolve s input)"

subsection \<open>The main loop\<close>

lemma stdin_calculator_loop: "length (stdin (calculator_loop s)) \<le> length (stdin s)"
proof (induction s rule: calculator_loop.induct)
  case (1 s)
  show ?case
  proof (cases "getline (emit [CalcPrompt] s)")
    case (Pair x1 s1)
    show ?thesis
    proof (cases x1)
      case None
      with Pair have "s1 = emit [CalcPrompt] s"
        by (auto simp: getline_def split: list.splits)
      with Pair None show ?thesis
        by (simp add: calculator_loop.simps [of s] stdin_emit)
    next
      case (Some l)
      with Pair have lt: "length (stdin s1) < length (stdin s)"
        using getline_Some [of "emit [CalcPrompt] s" l s1] by (simp add: stdin_emit)
      let ?line = "trim l"
      show ?thesis
      proof (cases "toLower ?line = ''done'' \<or> toLower ?line = ''exit'' \<or>
                    toLower ?line = ''back'' \<or> toLower ?line = ''quit''")
        case True
        with Pair Some lt show ?thesis
          by (simp add: calculator_loop.simps [of s] stdin_botSay Let_def)
      next
        case False
        show ?thesis
        proof (cases "parse_expression ?line")
          case None
          have "length (stdin (calculator_loop
                  (botSay ([CHR 0xE2, CHR 0x9A, CHR 0xA0, CHR 0xEF, CHR 0xB8, CHR 0x8F] @
                     ''  Please enter: <number> <operator> <number>  (e.g. 5 + 3)'') s1)))
                \<le> length (stdin s1)"
            using "1.IH" (1) [OF Pair [symmetric] Some refl False None]
            by (simp add: stdin_botSay)
          with Pair Some False None lt show ?thesis
            by (simp add: calculator_loop.simps [of s] Let_def)
        next
          case (Some q)
          obtain a op b unread where q: "q = (a, op, b, unread)"
            by (cases q) auto
          have "length (stdin (calculator_loop (calculate a op b s1))) \<le> length (stdin s1)"
            using "1.IH" (2) [OF Pair [symmetric] \<open>x1 = Some l\<close> refl False Some [unfolded q] refl refl refl]
            by (simp add: stdin_calculate)
          with Pair \<open>x1 = Some l\<close> False Some q lt show ?thesis
            by (simp add: calculator_loop.simps [of s] Let_def)
        qed
      qed
    qed
  qed
qed

lemma stdin_processInput: "length (stdin (processInput s input)) \<le> length (stdin s)"
proof -
  have "length (stdin (runCalculator s)) \<le> length (stdin s)"
    unfolding runCalculator_def
    using stdin_calculator_loop [of "emit [Newline, Separator,
              SayLines [[CHR 0xF0, CHR 0x9F, CHR 0xA7, CHR 0xAE] @ '' Calculator Mode!'',
                        ''Enter an expression like: 42 + 18'',
                        ''Supported operators: + - * /'',
                        ''Type '' @ [CHR 0x27] @ ''done'' @ [CHR 0x27] @ '' to exit calculator.''],
              Separator] s"]
    by (simp add: stdin_emit)
  then show ?thesis
    by (simp add: processInput_def resolve_def showHelp_def showHistory_def showBanner_def
        randomInt_def currentDateTime_def elapsed_seconds_def botSayMultiline_def
        stdin_emit stdin_botSay Let_def split: option.splits)
qed

text \<open>
  The loop \<open>while (running_)\<close> of \<open>run\<close>: the prompt, a line (the loop ends at the end
  of the input), the normalized input, skipped when empty, and else recorded and processed.
\<close>

function chat_loop :: "chatbot \<Rightarrow> chatbot" where
  "chat_loop s =
     (if \<not> running s then s
      else (case getline (emit [Newline, Prompt] s) of
              (None, s1) \<Rightarrow> s1
            | (Some line, s1) \<Rightarrow>
                (let input = normalize line
                 in if input = [] then chat_loop s1
                    else chat_loop (processInput (s1\<lparr>history := history s1 @ [input]\<rparr>) input))))"
  by pat_completeness auto
termination
proof (relation "measure (\<lambda>s. length (stdin s))")
  show "wf (measure (\<lambda>s. length (stdin s)))"
    by simp
next
  fix s x1 x2 line input
  assume "(x1, x2) = getline (emit [Newline, Prompt] s)" and "x1 = Some line"
  then have "length (stdin x2) < length (stdin s)"
    using getline_Some [of "emit [Newline, Prompt] s" line x2] by (simp add: stdin_emit)
  then show "(x2, s) \<in> measure (\<lambda>s. length (stdin s))"
    by simp
next
  fix s x1 x2 line input
  assume "(x1, x2) = getline (emit [Newline, Prompt] s)" and "x1 = Some line"
  then have "length (stdin x2) < length (stdin s)"
    using getline_Some [of "emit [Newline, Prompt] s" line x2] by (simp add: stdin_emit)
  moreover have "length (stdin (processInput (x2\<lparr>history := history x2 @ [input]\<rparr>) input))
      \<le> length (stdin (x2\<lparr>history := history x2 @ [input]\<rparr>))"
    by (rule stdin_processInput)
  ultimately show "(processInput (x2\<lparr>history := history x2 @ [input]\<rparr>) input, s)
      \<in> measure (\<lambda>s. length (stdin s))"
    by simp
qed

declare chat_loop.simps [simp del]

definition run :: "chatbot \<Rightarrow> chatbot" where
  "run s =
     (case welcomeSequence (showBanner s) of
        (False, s1) \<Rightarrow> s1
      | (True, s1) \<Rightarrow> showGoodbye (chat_loop s1))"

text \<open>\<open>main\<close>: \<open>ChatBot bot; bot.run(); return 0;\<close>\<close>

definition main :: "(string \<times> string) list \<Rightarrow> (string \<times> string) list \<Rightarrow> string list \<Rightarrow>
   (nat \<Rightarrow> nat) \<Rightarrow> (nat \<Rightarrow> string) \<Rightarrow> (nat \<Rightarrow> nat) \<Rightarrow> chatbot" where
  "main rs as input clock wall rng = run (ChatBot rs as input clock wall rng)"

text \<open>
  The tests of the branches of \<open>processInput\<close> that come before the aliases: an input
  that passes one of them is a command, every other input reaches \<open>resolve\<close>.
\<close>

definition command_input :: "string \<Rightarrow> bool" where
  "command_input input \<longleftrightarrow>
     input = ''bye'' \<or> input = ''exit'' \<or> input = ''quit'' \<or> input = ''q'' \<or>
     input = ''help'' \<or> input = ''manual'' \<or> input = ''commands'' \<or>
     input = ''joke'' \<or> input = ''tell me a joke'' \<or> input = ''tell a joke'' \<or>
     input = ''fact'' \<or> input = ''tell me a fact'' \<or> input = ''fun fact'' \<or>
     input = ''time'' \<or> input = ''date'' \<or> input = ''what time is it?'' \<or>
     input = ''what time is it'' \<or> input = ''what'' @ [CHR 0x27] @ ''s the time?'' \<or>
     input = ''what is the date?'' \<or> input = ''what is the date'' \<or>
     input = ''flip'' \<or> input = ''flip a coin'' \<or> input = ''coin flip'' \<or> input = ''coin'' \<or>
     input = ''roll'' \<or> input = ''roll a dice'' \<or> input = ''roll dice'' \<or> input = ''dice'' \<or>
     input = ''uptime'' \<or> input = ''session'' \<or>
     input = ''history'' \<or> input = ''show history'' \<or>
     input = ''clear'' \<or> input = ''cls'' \<or>
     (substr input 0 8 = ''reverse '' \<and> 8 < length input) \<or>
     (substr input 0 6 = ''count '' \<and> 6 < length input) \<or>
     input = ''calc'' \<or> input = ''calculate'' \<or> input = ''calculator'' \<or>
     input = ''math'' \<or> input = ''add'' \<or> input = ''sum'' \<or>
     input = ''add numbers'' \<or> input = ''can you add integers for me?'' \<or>
     input = ''can you calculate for me?''"

text \<open>A bot built on the tables in their order of assignment, with no input at all.\<close>

definition quiet_bot :: chatbot where
  "quiet_bot = ChatBot initResponses initAliases [] (\<lambda>k. 0) (\<lambda>k. []) (\<lambda>k. 0)"


text \<open>The four words that leave the calculator, as the loop tests them on the trimmed line.\<close>

definition calculator_exit_word :: "string \<Rightarrow> bool" where
  "calculator_exit_word line \<longleftrightarrow>
     toLower line = ''done'' \<or> toLower line = ''exit'' \<or>
     toLower line = ''back'' \<or> toLower line = ''quit''"

text \<open>The value the switch of the calculator assigns to \<open>result\<close> for its five operators.\<close>

definition computed_value :: "char \<Rightarrow> double \<Rightarrow> double \<Rightarrow> double" where
  "computed_value op a b =
     (if op = CHR ''+'' then dadd a b
      else if op = CHR ''-'' then dsub a b
      else if op = CHR ''/'' then ddiv a b
      else dmul a b)"

text \<open>
  A number text with its trailing zeros and then a trailing decimal point removed, when
  it has a decimal point at all.
\<close>

definition strip_trailing_zeros :: "string \<Rightarrow> string" where
  "strip_trailing_zeros t =
     (if CHR ''.'' \<in> set t
      then (let u = rev (dropWhile (\<lambda>c. c = CHR ''0'') (rev t))
            in if u \<noteq> [] \<and> last u = CHR ''.'' then butlast u else u)
      else t)"

definition check_mark :: string where
  "check_mark = [CHR 0xE2, CHR 0x9C, CHR 0x85] @ '' ''"

definition usage_warning :: string where
  "usage_warning = [CHR 0xE2, CHR 0x9A, CHR 0xA0, CHR 0xEF, CHR 0xB8, CHR 0x8F] @
     ''  Please enter: <number> <operator> <number>  (e.g. 5 + 3)''"

definition division_warning :: string where
  "division_warning = [CHR 0xE2, CHR 0x9A, CHR 0xA0, CHR 0xEF, CHR 0xB8, CHR 0x8F] @
     ''  Division by zero! The universe would implode. '' @
     [CHR 0xF0, CHR 0x9F, CHR 0x8C, CHR 0x8C]"

definition unknown_operator_warning :: "char \<Rightarrow> string" where
  "unknown_operator_warning op =
     [CHR 0xE2, CHR 0x9A, CHR 0xA0, CHR 0xEF, CHR 0xB8, CHR 0x8F] @
     ''  Unknown operator '' @ [CHR 0x27] @ [op] @ [CHR 0x27] @ ''. Use + - * /''"

text \<open>The characters that carry on a number where one is being read: a digit, the point, an exponent letter.\<close>

definition continues_number :: "char \<Rightarrow> bool" where
  "continues_number c \<longleftrightarrow> is_digit c \<or> c = CHR ''.'' \<or> c = CHR ''e'' \<or> c = CHR ''E''"

text \<open>
  The characters a numeric operand can begin with, white space included, which the
  extraction skips: a line that begins with any other character is not numeric.
\<close>

definition starts_number :: "char \<Rightarrow> bool" where
  "starts_number c \<longleftrightarrow>
     isspace c \<or> is_digit c \<or> c = CHR ''+'' \<or> c = CHR ''-'' \<or> c = CHR ''.''"

text \<open>The four inputs of the first branch of \<open>processInput\<close>.\<close>

definition exit_token :: "string \<Rightarrow> bool" where
  "exit_token input \<longleftrightarrow>
     input = ''bye'' \<or> input = ''exit'' \<or> input = ''quit'' \<or> input = ''q''"

text \<open>A later state that differs from an earlier one in the input left and the output only.\<close>

definition io_only :: "chatbot \<Rightarrow> chatbot \<Rightarrow> bool" where
  "io_only s s' \<longleftrightarrow> (\<exists>input out. s' = s\<lparr>stdin := input, stdout := out\<rparr>)"

text \<open>
  How a run of the main loop from \<open>s\<close> to \<open>s'\<close> can end: the inputs \<open>hs\<close> it recorded
  hold no exit token but possibly the last; either the flag is down and the last input
  recorded is an exit token, or the flag is still up and the input is at its end.
\<close>

definition loop_outcome :: "chatbot \<Rightarrow> chatbot \<Rightarrow> bool" where
  "loop_outcome s s' \<longleftrightarrow>
     (\<exists>hs. history s' = history s @ hs \<and>
        (\<forall>h \<in> set (butlast hs). \<not> exit_token h) \<and>
        ((\<not> running s' \<and> hs \<noteq> [] \<and> exit_token (last hs)) \<or>
         (running s' \<and> stdin s' = [] \<and> (\<forall>h \<in> set hs. \<not> exit_token h))))"

section \<open>Properties of the string helpers\<close>

lemma find_first_not_of_None:
  "find_first_not_of s cs = None \<longleftrightarrow> set s \<subseteq> set cs"
  by (induction s) auto

lemma find_first_not_of_Some:
  "find_first_not_of s cs = Some i \<Longrightarrow>
     i = length (takeWhile (\<lambda>c. c \<in> set cs) s) \<and> i < length s"
  by (induction s arbitrary: i) (auto split: if_splits)

lemma rev_drop_rev: "rev (drop j (rev d)) = take (length d - j) d"
  by (simp add: rev_drop)

lemma trim_dropWhile:
  "trim s = rev (dropWhile (\<lambda>c. c \<in> set whitespace)
              (rev (dropWhile (\<lambda>c. c \<in> set whitespace) s)))"
proof (cases "find_first_not_of s whitespace")
  case None
  then have "set s \<subseteq> set whitespace"
    by (simp add: find_first_not_of_None)
  then have "dropWhile (\<lambda>c. c \<in> set whitespace) s = []"
    by auto
  then have "rev (dropWhile (\<lambda>c. c \<in> set whitespace)
      (rev (dropWhile (\<lambda>c. c \<in> set whitespace) s))) = []"
    by (simp only: rev.simps dropWhile.simps)
  with None show ?thesis
    by (simp only: trim_def option.case)
next
  case (Some start)
  let ?P = "\<lambda>c. c \<in> set whitespace"
  from Some have start: "start = length (takeWhile ?P s)" and lt: "start < length s"
    using find_first_not_of_Some by blast+
  have nsub: "\<not> set s \<subseteq> set whitespace"
    using Some find_first_not_of_None [of s whitespace] by auto
  then have "find_first_not_of (rev s) whitespace \<noteq> None"
    by (simp add: find_first_not_of_None)
  then obtain j where j: "find_first_not_of (rev s) whitespace = Some j"
    by blast
  then have jv: "j = length (takeWhile ?P (rev s))" and jlt: "j < length s"
    using find_first_not_of_Some [of "rev s" whitespace j] by auto
  have dw: "dropWhile ?P s = drop start s"
    by (simp add: start dropWhile_eq_drop)
  have ex: "\<exists>x \<in> set (drop start s). \<not> ?P x"
  proof -
    from nsub have e: "\<exists>x \<in> set s. \<not> ?P x"
      by blast
    then have ne: "dropWhile ?P s \<noteq> []"
      by simp
    then have "hd (dropWhile ?P s) \<in> set (dropWhile ?P s)"
      by (rule hd_in_set)
    moreover have "\<not> ?P (hd (dropWhile ?P s))"
      using ne by (rule hd_dropWhile)
    ultimately show ?thesis
      unfolding dw by blast
  qed
  have tw: "takeWhile ?P (rev (drop start s)) = takeWhile ?P (rev s)"
  proof -
    from ex obtain x where x: "x \<in> set (rev (drop start s))" "\<not> ?P x"
      by auto
    have "rev s = rev (drop start s) @ rev (take start s)"
      by (metis append_take_drop_id rev_append)
    then have "takeWhile ?P (rev s) = takeWhile ?P (rev (drop start s) @ rev (take start s))"
      by (rule arg_cong)
    also have "\<dots> = takeWhile ?P (rev (drop start s))"
      using x by (rule takeWhile_append1)
    finally show ?thesis ..
  qed
  have "length (takeWhile ?P (rev (drop start s))) < length (rev (drop start s))"
  proof -
    have "dropWhile ?P (rev (drop start s)) \<noteq> []"
      using ex by (simp add: dropWhile_eq_Nil_conv)
    moreover have "length (takeWhile ?P (rev (drop start s)))
        + length (dropWhile ?P (rev (drop start s))) = length (rev (drop start s))"
      by (metis length_append takeWhile_dropWhile_id)
    ultimately show ?thesis
      by (cases "dropWhile ?P (rev (drop start s))") auto
  qed
  then have "j < length s - start"
    unfolding tw jv [symmetric] by simp
  with lt have le: "j + start < length s"
    by arith
  have "rev (dropWhile ?P (rev (drop start s))) = rev (drop j (rev (drop start s)))"
    unfolding dropWhile_eq_drop tw jv [symmetric] ..
  also have "\<dots> = take (length s - start - j) (drop start s)"
    unfolding rev_drop_rev length_drop ..
  finally have r: "rev (dropWhile ?P (rev (dropWhile ?P s))) = take (length s - start - j) (drop start s)"
    unfolding dw .
  have n: "length s - start - j = (length s - 1 - j) - start + 1"
    using le jlt lt by arith
  have "trim s = substr s start ((length s - 1 - j) - start + 1)"
    unfolding trim_def find_last_not_of_def Some j by simp
  then show ?thesis
    unfolding r n substr_def .
qed


lemma tolower_alt:
  "tolower c = (if 65 \<le> (of_char c :: nat) \<and> (of_char c :: nat) \<le> 90
                then char_of (of_char c + 32 :: nat) else c)"
  by (simp add: tolower_def Let_def)

lemma tolower_whitespace: "tolower c \<in> set whitespace \<longleftrightarrow> c \<in> set whitespace"
proof -
  have "(of_char c :: nat) < 256" by simp
  have a: "of_char (CHR 0x20) = (32::nat)" "of_char (CHR 0x09) = (9::nat)"
     "of_char (CHR 0x0D) = (13::nat)" "of_char (CHR 0x0A) = (10::nat)" by simp_all
  show ?thesis
  proof (cases "65 \<le> (of_char c :: nat) \<and> (of_char c :: nat) \<le> 90")
    case False
    then show ?thesis by (simp only: tolower_alt if_False)
  next
    case True
    then have t: "tolower c = char_of (of_char c + 32 :: nat)"
      by (simp add: tolower_def Let_def)
    have "(of_char (tolower c) :: nat) = of_char c + 32"
      unfolding t using True by simp
    then have "tolower c \<notin> set whitespace"
      using True a unfolding whitespace_def by auto
    moreover have "c \<notin> set whitespace"
      using True a unfolding whitespace_def by auto
    ultimately show ?thesis by simp
  qed
qed

lemma tolower_idem: "tolower (tolower c) = tolower c"
proof (cases "65 \<le> (of_char c :: nat) \<and> (of_char c :: nat) \<le> 90")
  case False
  then show ?thesis by (simp only: tolower_alt if_False)
next
  case True
  then have t: "tolower c = char_of (of_char c + 32 :: nat)"
    by (simp add: tolower_def Let_def)
  have "(of_char (tolower c) :: nat) = of_char c + 32"
    unfolding t using True by simp
  then have "\<not> (65 \<le> (of_char (tolower c) :: nat) \<and> (of_char (tolower c) :: nat) \<le> 90)"
    using True by simp
  then show ?thesis
    by (simp only: tolower_alt [of "tolower c"] if_False)
qed

lemma toLower_idem: "toLower (toLower s) = toLower s"
  by (simp add: toLower_def tolower_idem)

lemma trim_toLower: "trim (toLower s) = toLower (trim s)"
proof -
  have e: "(\<lambda>c. c \<in> set whitespace) \<circ> tolower = (\<lambda>c. c \<in> set whitespace)"
    by (rule ext) (simp add: tolower_whitespace)
  show ?thesis
    unfolding trim_dropWhile toLower_def
    by (simp only: dropWhile_map rev_map e)
qed

lemma trim_idem: "trim (trim s) = trim s"
proof -
  let ?P = "\<lambda>c. c \<in> set whitespace"
  define d where "d = dropWhile ?P s"
  define e where "e = dropWhile ?P (rev d)"
  have t: "trim s = rev e"
    unfolding trim_dropWhile e_def d_def ..
  have front: "dropWhile ?P (rev e) = rev e"
  proof (cases "e = []")
    case True
    then show ?thesis by simp
  next
    case False
    then have dne: "d \<noteq> []"
      unfolding e_def by auto
    have "\<exists>ys. rev d = ys @ e"
      unfolding e_def by (metis takeWhile_dropWhile_id)
    then obtain ys where "rev d = ys @ e" ..
    then have "last e = last (rev d)"
      using False by simp
    then have "hd (rev e) = hd d"
      using False dne by (simp add: hd_rev last_rev)
    moreover have "\<not> ?P (hd d)"
      using dne unfolding d_def by (rule hd_dropWhile)
    ultimately have "\<not> ?P (hd (rev e))" by simp
    then show ?thesis
      using False by (cases "rev e") auto
  qed
  have dw2: "dropWhile ?P e = e"
    unfolding e_def by (rule dropWhile_idem)
  have "trim (rev e) = rev (dropWhile ?P (rev (dropWhile ?P (rev e))))"
    by (rule trim_dropWhile)
  also have "\<dots> = rev e"
    unfolding front rev_rev_ident dw2 ..
  finally show ?thesis
    unfolding t .
qed


section \<open>Lookup in the two maps\<close>

lemma processInput_resolve: "\<not> command_input input \<Longrightarrow> processInput s input = resolve s input"
  unfolding processInput_def command_input_def
  by (simp only: de_Morgan_disj if_False simp_thms)

lemma distinct_initResponses: "distinct (map fst initResponses)"
  by code_simp

lemma distinct_initAliases: "distinct (map fst initAliases)"
  by code_simp

lemma find_key_unordered_map:
  assumes "unordered_map_of assignments m" and "distinct (map fst assignments)"
  shows "find_key m k = map_of assignments k"
proof (cases "map_of assignments k")
  case None
  then have "k \<notin> fst ` set assignments"
    by (simp add: map_of_eq_None_iff)
  then have "k \<notin> fst ` set m"
    using assms(1) by (simp add: unordered_map_of_def)
  then have "map_of m k = None"
    by (simp add: map_of_eq_None_iff)
  then show ?thesis
    using None by (simp add: find_key_def)
next
  case (Some v)
  then have "(k, v) \<in> set assignments"
    by (rule map_of_SomeD)
  then have "(k, v) \<in> set m"
    using assms(1) by (simp add: unordered_map_of_def)
  moreover have "distinct (map fst m)"
    using assms(1) by (simp add: unordered_map_of_def)
  ultimately have "map_of m k = Some v"
    by simp
  then show ?thesis
    using Some by (simp add: find_key_def)
qed

lemma keys_not_commands:
  "list_all (\<lambda>(key, response). \<not> command_input key \<and> map_of initAliases key = None) initResponses"
  by code_simp

lemma aliases_not_commands:
  "list_all (\<lambda>(phrase, key). \<not> command_input phrase \<and> map_of initResponses key \<noteq> None) initAliases"
  by code_simp

lemma find_key_responses:
  "constructed s \<Longrightarrow> find_key (responses s) k = map_of initResponses k"
  by (simp add: constructed_def find_key_unordered_map distinct_initResponses)

lemma find_key_aliases:
  "constructed s \<Longrightarrow> find_key (aliases s) k = map_of initAliases k"
  by (simp add: constructed_def find_key_unordered_map distinct_initAliases)

lemma constructed_quiet_bot: "constructed quiet_bot"
  by (simp add: constructed_def unordered_map_of_def quiet_bot_def ChatBot_def
      distinct_initResponses distinct_initAliases)


section \<open>The partial match\<close>

lemma find_str_sublist: "find_str s key \<noteq> None \<longleftrightarrow> sublist key s"
proof (induction s)
  case Nil
  show ?case by simp
next
  case (Cons c s)
  have "take (length key) (c # s) = key \<longleftrightarrow> prefix key (c # s)"
    by (metis append_take_drop_id prefix_def append_eq_conv_conj)
  then show ?case
    using Cons by (simp add: sublist_Cons_right)
qed

lemma partial_match_Some:
  "partial_match m input = Some response \<Longrightarrow>
     \<exists>key. (key, response) \<in> set m \<and> sublist key input \<and> 3 \<le> length key"
  unfolding find_str_sublist [symmetric]
  by (induction m input rule: partial_match.induct) (auto split: if_splits)

lemma partial_match_None:
  "partial_match m input = None \<longleftrightarrow>
     (\<forall>key response. (key, response) \<in> set m \<longrightarrow> \<not> (sublist key input \<and> 3 \<le> length key))"
  unfolding find_str_sublist [symmetric]
  by (induction m input rule: partial_match.induct) auto

lemma find_key_Some_iff:
  "constructed s \<Longrightarrow> find_key (responses s) key = Some response \<longleftrightarrow> (key, response) \<in> set (responses s)"
  by (simp add: find_key_def constructed_def unordered_map_of_def)


section \<open>The calculator's loop, step by step\<close>

lemma erase_trailing:
  "(case find_last_not_of s cs of None \<Rightarrow> [] | Some i \<Rightarrow> take (i + 1) s)
     = rev (dropWhile (\<lambda>c. c \<in> set cs) (rev s))"
proof (cases "find_first_not_of (rev s) cs")
  case None
  then have "set (rev s) \<subseteq> set cs"
    by (simp add: find_first_not_of_None)
  then have "dropWhile (\<lambda>c. c \<in> set cs) (rev s) = []"
    by auto
  then have "rev (dropWhile (\<lambda>c. c \<in> set cs) (rev s)) = []"
    by (simp only: rev.simps)
  then show ?thesis
    using None by (simp only: find_last_not_of_def option.case)
next
  case (Some j)
  then have j: "j = length (takeWhile (\<lambda>c. c \<in> set cs) (rev s))" and lt: "j < length s"
    using find_first_not_of_Some [of "rev s" cs j] by auto
  have "rev (dropWhile (\<lambda>c. c \<in> set cs) (rev s)) = rev (drop j (rev s))"
    unfolding dropWhile_eq_drop j ..
  also have "\<dots> = take (length s - j) s"
    by (rule rev_drop_rev)
  also have "length s - j = length s - 1 - j + 1"
    using lt by arith
  finally show ?thesis
    using Some by (simp only: find_last_not_of_def option.case)
qed

lemma fixed4_shape:
  "CHR ''.'' \<in> set (fixed4 r) \<or>
   (fixed4 r \<noteq> [] \<and> last (fixed4 r) \<noteq> CHR ''0'' \<and> last (fixed4 r) \<noteq> CHR ''.'')"
  by (cases r) (simp_all add: Let_def)

lemma result_text_strip:
  "result_text a op b r =
     fixed4 a @ '' '' @ [op] @ '' '' @ fixed4 b @ '' = '' @ strip_trailing_zeros (fixed4 r)"
proof -
  let ?Z = "\<lambda>c. c \<in> set ''0''"
  define pre where "pre = fixed4 a @ '' '' @ [op] @ '' '' @ fixed4 b @ '' = ''"
  define t where "t = fixed4 r"
  define u where "u = rev (dropWhile ?Z (rev t))"
  have Z: "?Z = (\<lambda>c. c = CHR ''0'')"
    by auto
  have res: "fixed4 a @ '' '' @ [op] @ '' '' @ fixed4 b @ '' = '' @ fixed4 r = pre @ t"
    by (simp add: pre_def t_def)
  have rt: "result_text a op b r =
      (if CHR ''.'' \<in> set (pre @ t)
       then (let res1 = rev (dropWhile ?Z (rev (pre @ t)))
             in if res1 \<noteq> [] \<and> last res1 = CHR ''.'' then butlast res1 else res1)
       else pre @ t)"
    unfolding result_text_def res erase_trailing Let_def ..
  have st: "strip_trailing_zeros t =
      (if CHR ''.'' \<in> set t
       then (if u \<noteq> [] \<and> last u = CHR ''.'' then butlast u else u) else t)"
    unfolding strip_trailing_zeros_def u_def Z Let_def ..
  from fixed4_shape [of r]
  have shape: "CHR ''.'' \<in> set t \<or> (t \<noteq> [] \<and> last t \<noteq> CHR ''0'' \<and> last t \<noteq> CHR ''.'')"
    unfolding t_def .
  have nz: "\<exists>x \<in> set (rev t). \<not> ?Z x"
  proof (cases "CHR ''.'' \<in> set t")
    case True
    then show ?thesis by auto
  next
    case False
    with shape have "t \<noteq> []" and "last t \<noteq> CHR ''0''" by auto
    then have "last t \<in> set t" and "\<not> ?Z (last t)" by auto
    then show ?thesis by auto
  qed
  then obtain x where "x \<in> set (rev t)" and "\<not> ?Z x"
    by blast
  then have "dropWhile ?Z (rev t @ rev pre) = dropWhile ?Z (rev t) @ rev pre"
    by (rule dropWhile_append1)
  then have res1: "rev (dropWhile ?Z (rev (pre @ t))) = pre @ u"
    unfolding u_def by simp
  have une: "u \<noteq> []"
    using nz unfolding u_def by (simp add: dropWhile_eq_Nil_conv)
  show ?thesis
  proof (cases "CHR ''.'' \<in> set t")
    case True
    then have "CHR ''.'' \<in> set (pre @ t)" by simp
    then have "result_text a op b r =
        (if last (pre @ u) = CHR ''.'' then butlast (pre @ u) else pre @ u)"
      unfolding rt res1 Let_def using une by simp
    also have "\<dots> = pre @ (if last u = CHR ''.'' then butlast u else u)"
      using une by (simp add: butlast_append)
    also have "\<dots> = pre @ strip_trailing_zeros t"
      unfolding st using True une by simp
    finally show ?thesis
      unfolding pre_def t_def by simp
  next
    case False
    with shape have tne: "t \<noteq> []" and l0: "last t \<noteq> CHR ''0''" and ld: "last t \<noteq> CHR ''.''"
      by auto
    have "dropWhile ?Z (rev t) = rev t"
      using tne l0 by (cases "rev t") (auto simp: last_rev [symmetric] hd_rev)
    then have ut: "u = t"
      unfolding u_def by simp
    have "result_text a op b r = pre @ t"
      unfolding rt res1 Let_def ut using tne ld by simp
    moreover have "strip_trailing_zeros t = t"
      unfolding st using False by simp
    ultimately show ?thesis
      unfolding pre_def t_def by simp
  qed
qed

lemma getline_Cons: "stdin s = l # ls \<Longrightarrow> getline s = (Some l, s\<lparr>stdin := ls\<rparr>)"
  by (simp add: getline_def)

lemma getline_Nil: "stdin s = [] \<Longrightarrow> getline s = (None, s)"
  by (simp add: getline_def)

lemma calculator_loop_eof: "stdin s = [] \<Longrightarrow> calculator_loop s = emit [CalcPrompt] s"
  using getline_Nil [of "emit [CalcPrompt] s"]
  by (simp add: calculator_loop.simps [of s] stdin_emit)

lemma calculator_loop_exit:
  "stdin s = l # ls \<Longrightarrow> calculator_exit_word (trim l) \<Longrightarrow>
     calculator_loop s =
       botSay (''Exiting calculator. Back to chat! '' @ [CHR 0xF0, CHR 0x9F, CHR 0x92, CHR 0xAC])
         ((emit [CalcPrompt] s)\<lparr>stdin := ls\<rparr>)"
  using getline_Cons [of "emit [CalcPrompt] s" l ls]
  by (simp add: calculator_loop.simps [of s] stdin_emit calculator_exit_word_def Let_def)

lemma calculator_loop_malformed:
  "stdin s = l # ls \<Longrightarrow> \<not> calculator_exit_word (trim l) \<Longrightarrow>
   parse_expression (trim l) = None \<Longrightarrow>
     calculator_loop s =
       calculator_loop (botSay usage_warning ((emit [CalcPrompt] s)\<lparr>stdin := ls\<rparr>))"
  using getline_Cons [of "emit [CalcPrompt] s" l ls]
  by (simp add: calculator_loop.simps [of s] stdin_emit calculator_exit_word_def Let_def
      usage_warning_def)

lemma tolower_eq_lower:
  assumes "tolower c = x" and "97 \<le> (of_char x :: nat)" and "(of_char x :: nat) \<le> 122"
  shows "(of_char c :: nat) = of_char x \<or> (of_char c :: nat) + 32 = of_char x"
proof (cases "65 \<le> (of_char c :: nat) \<and> (of_char c :: nat) \<le> 90")
  case False
  then have "tolower c = c"
    by (simp only: tolower_alt if_False)
  with assms(1) show ?thesis by simp
next
  case True
  then have "tolower c = char_of (of_char c + 32 :: nat)"
    by (simp only: tolower_alt simp_thms if_True)
  then have "(of_char (tolower c) :: nat) = of_char c + 32"
    using True by simp
  with assms(1) show ?thesis by simp
qed

lemma get_double_letter:
  assumes "97 \<le> (of_char (tolower c) :: nat)" and "(of_char (tolower c) :: nat) \<le> 122"
  shows "get_double (c # cs) = None"
proof -
  from tolower_eq_lower [OF refl assms]
  have n: "65 \<le> (of_char c :: nat)"
    using assms by arith
  have sp: "\<not> isspace c"
    using n by (auto simp: isspace_def)
  have dg: "\<not> is_digit c"
    using n by (auto simp: is_digit_def)
  have pm: "c \<noteq> CHR ''+''" "c \<noteq> CHR ''-''" "c \<noteq> CHR ''.''"
    using n by auto
  have "extract_float (c # cs) = ([], c # cs)"
    using dg pm by (simp add: extract_float_def float_digits.simps)
  then show ?thesis
    using sp by (simp add: get_double_def strtod_def take_sign_def)
qed

lemma exit_word_not_parsed:
  assumes "calculator_exit_word line"
  shows "parse_expression line = None"
proof -
  from assms obtain c cs x xs where l: "line = c # cs" and t: "tolower c = x"
    and x: "x = CHR ''d'' \<or> x = CHR ''e'' \<or> x = CHR ''b'' \<or> x = CHR ''q''"
    by (cases line) (auto simp: calculator_exit_word_def toLower_def)
  from x have "97 \<le> (of_char x :: nat) \<and> (of_char x :: nat) \<le> 122"
    by auto
  then have "get_double (c # cs) = None"
    using t by (intro get_double_letter) simp_all
  then show ?thesis
    by (simp add: parse_expression_def l)
qed

lemma calculator_loop_parsed:
  assumes "stdin s = l # ls" and "parse_expression (trim l) = Some (a, op, b, unread)"
  shows "calculator_loop s =
    calculator_loop (calculate a op b ((emit [CalcPrompt] s)\<lparr>stdin := ls\<rparr>))"
proof -
  have "\<not> calculator_exit_word (trim l)"
    using assms(2) exit_word_not_parsed [of "trim l"] by auto
  then show ?thesis
    using assms getline_Cons [of "emit [CalcPrompt] s" l ls]
    by (simp add: calculator_loop.simps [of s] stdin_emit calculator_exit_word_def Let_def)
qed

lemma calculate_valid:
  "op \<in> set ''+-*x/'' \<Longrightarrow> (op = CHR ''/'' \<longrightarrow> \<not> is_zero b) \<Longrightarrow>
     calculate a op b s = botSay (check_mark @ result_text a op b (computed_value op a b)) s"
  by (auto simp: calculate_def computed_value_def check_mark_def)

lemma calculate_division_by_zero:
  "is_zero b \<Longrightarrow> calculate a (CHR ''/'') b s = botSay division_warning s"
  by (simp add: calculate_def division_warning_def)

lemma calculate_unknown_operator:
  "op \<notin> set ''+-*x/'' \<Longrightarrow> calculate a op b s = botSay (unknown_operator_warning op) s"
  by (simp add: calculate_def unknown_operator_warning_def)


lemma get_double_nonnumeric:
  assumes "s = [] \<or> \<not> starts_number (hd s)"
  shows "get_double s = None"
proof (cases s)
  case Nil
  then show ?thesis
    by (simp add: get_double_def)
next
  case (Cons c cs)
  with assms have c: "\<not> isspace c" "\<not> is_digit c" "c \<noteq> CHR ''+''" "c \<noteq> CHR ''-''"
    "c \<noteq> CHR ''.''"
    by (simp_all add: starts_number_def)
  have "float_digits False False False (c # cs) = ([], c # cs)"
    unfolding float_digits.simps(2) [of False False False c cs] using c by simp
  then have "extract_float (c # cs) = ([], c # cs)"
    using c by (simp add: extract_float_def)
  then show ?thesis
    using c Cons by (simp add: get_double_def strtod_def take_sign_def)
qed

lemma parse_expression_nonnumeric:
  "s = [] \<or> \<not> starts_number (hd s) \<Longrightarrow> parse_expression s = None"
  by (simp add: parse_expression_def get_double_nonnumeric)


section \<open>Evaluating the calculator on given lines\<close>

lemma floor_rat_numeral_div: "\<lfloor>numeral a / numeral b :: rat\<rfloor> = numeral a div numeral b"
  using floor_divide_of_int_eq [of "numeral a" "numeral b", where ?'a = rat] by simp

lemma ceiling_rat_numeral_div:
  "\<lceil>numeral a / numeral b :: rat\<rceil> = - (- numeral a div numeral b)"
  using floor_divide_of_int_eq [of "- numeral a" "numeral b", where ?'a = rat]
  by (simp add: ceiling_def)

lemmas double_eval = floor_rat_numeral_div ceiling_rat_numeral_div round_double_def
  floor_log2_def pow2_def round_half_even_def signed_value_def Let_def bit_length.simps
  to_string.simps digit_char_def

lemmas stream_eval = parse_expression_def get_double_def get_char_def extract_float_def
  strtod_def take_sign_def take_exponent_def isspace_def is_digit_def accumulate_def
  digits_value_def pow10_def float_digits.simps





lemma text_5_plus_3:
  "fixed4 (Fin False 5) @ '' '' @ [CHR ''+''] @ '' '' @ fixed4 (Fin False 3) @ '' = '' @
     strip_trailing_zeros (fixed4 (computed_value (CHR ''+'') (Fin False 5) (Fin False 3)))
   = ''5.0000 + 3.0000 = 8''"
  by (simp add: computed_value_def strip_trailing_zeros_def double_eval)

lemma text_7_by_2:
  "fixed4 (Fin False 7) @ '' '' @ [CHR ''/''] @ '' '' @ fixed4 (Fin False 2) @ '' = '' @
     strip_trailing_zeros (fixed4 (computed_value (CHR ''/'') (Fin False 7) (Fin False 2)))
   = ''7.0000 / 2.0000 = 3.5''"
  by (simp add: computed_value_def strip_trailing_zeros_def double_eval)
lemma trim_10_by_0: "trim ''10 / 0'' = ''10 / 0''"
  by code_simp

lemma parse_10_by_0:
  "parse_expression ''10 / 0'' = Some (Fin False 10, CHR ''/'', Fin False 0, [])"
  by (simp add: stream_eval double_eval)

lemma trim_bad_input: "trim ''bad input'' = ''bad input''"
  by code_simp

lemma not_exit_bad_input: "\<not> calculator_exit_word ''bad input''"
  by code_simp

lemma parse_bad_input: "parse_expression ''bad input'' = None"
  by (simp add: stream_eval)





lemma trim_5_hat_3: "trim ''5 ^ 3'' = ''5 ^ 3''"
  by code_simp

lemma parse_5_hat_3:
  "parse_expression ''5 ^ 3'' = Some (Fin False 5, CHR ''^'', Fin False 3, [])"
  by (simp add: stream_eval double_eval)

lemma trim_5_plus_3_plus_4: "trim ''5 + 3 + 4'' = ''5 + 3 + 4''"
  by code_simp

lemma parse_5_plus_3_plus_4:
  "parse_expression ''5 + 3 + 4'' = Some (Fin False 5, CHR ''+'', Fin False 3, '' + 4'')"
  by (simp add: stream_eval double_eval)


section \<open>What the routines leave unchanged\<close>

lemma io_only_refl: "io_only s s"
proof -
  have "s = s\<lparr>stdin := stdin s, stdout := stdout s\<rparr>"
    by simp
  then show ?thesis
    unfolding io_only_def by blast
qed

lemma io_only_trans: "io_only s s1 \<Longrightarrow> io_only s1 s2 \<Longrightarrow> io_only s s2"
proof -
  assume "io_only s s1" and "io_only s1 s2"
  then obtain i1 o1 i2 o2 where "s1 = s\<lparr>stdin := i1, stdout := o1\<rparr>"
    and "s2 = s1\<lparr>stdin := i2, stdout := o2\<rparr>"
    unfolding io_only_def by blast
  then have "s2 = s\<lparr>stdin := i2, stdout := o2\<rparr>"
    by simp
  then show ?thesis
    unfolding io_only_def by blast
qed

lemma io_only_emit: "io_only s (emit es s)"
proof -
  have "emit es s = s\<lparr>stdin := stdin s, stdout := stdout s @ es\<rparr>"
    by (simp add: emit_def)
  then show ?thesis
    unfolding io_only_def by blast
qed

lemma io_only_botSay: "io_only s (botSay msg s)"
  unfolding botSay_def by (rule io_only_emit)

lemma io_only_calculate: "io_only s (calculate a op b s)"
  by (simp add: calculate_def Let_def io_only_botSay io_only_refl)

lemma io_only_getline: "getline s = (x, s1) \<Longrightarrow> io_only s s1"
proof (cases "stdin s")
  case Nil
  assume "getline s = (x, s1)"
  with Nil have "s1 = s"
    by (simp add: getline_def)
  then show ?thesis
    by (simp add: io_only_refl)
next
  case (Cons l ls)
  assume "getline s = (x, s1)"
  with Cons have "s1 = s\<lparr>stdin := ls, stdout := stdout s\<rparr>"
    by (auto simp: getline_def)
  then show ?thesis
    unfolding io_only_def by blast
qed

lemma io_only_fields:
  "io_only s s' \<Longrightarrow>
     running s' = running s \<and> history s' = history s \<and> observations s' = observations s \<and>
     sessionStart s' = sessionStart s \<and> responses s' = responses s \<and> aliases s' = aliases s \<and>
     jokes s' = jokes s \<and> facts s' = facts s \<and> steady_clock s' = steady_clock s \<and>
     local_time s' = local_time s \<and> random_engine s' = random_engine s"
  unfolding io_only_def by auto

lemma io_only_calculator_loop: "io_only s (calculator_loop s)"
proof (induction s rule: calculator_loop.induct)
  case (1 s)
  obtain x s1 where g: "getline (emit [CalcPrompt] s) = (x, s1)"
    by (cases "getline (emit [CalcPrompt] s)")
  have s1: "io_only s s1"
    using io_only_trans [OF io_only_emit io_only_getline [OF g]] .
  show ?case
  proof (cases x)
    case None
    with g s1 show ?thesis
      by (simp add: calculator_loop.simps [of s])
  next
    case (Some l)
    show ?thesis
    proof (cases "toLower (trim l) = ''done'' \<or> toLower (trim l) = ''exit'' \<or>
                  toLower (trim l) = ''back'' \<or> toLower (trim l) = ''quit''")
      case True
      have "io_only s (botSay (''Exiting calculator. Back to chat! '' @
          [CHR 0xF0, CHR 0x9F, CHR 0x92, CHR 0xAC]) s1)"
        using io_only_trans [OF s1 io_only_botSay] .
      with g Some True show ?thesis
        by (simp add: calculator_loop.simps [of s] Let_def)
    next
      case False
      show ?thesis
      proof (cases "parse_expression (trim l)")
        case None
        let ?s2 = "botSay ([CHR 0xE2, CHR 0x9A, CHR 0xA0, CHR 0xEF, CHR 0xB8, CHR 0x8F] @
                     ''  Please enter: <number> <operator> <number>  (e.g. 5 + 3)'') s1"
        have "io_only ?s2 (calculator_loop ?s2)"
          using "1.IH"(1) [OF g [symmetric] Some refl False None] .
        then have "io_only s (calculator_loop ?s2)"
          using io_only_trans [OF io_only_trans [OF s1 io_only_botSay]] by blast
        with g Some False None show ?thesis
          by (simp add: calculator_loop.simps [of s] Let_def)
      next
        case (Some q)
        obtain a op b unread where q: "q = (a, op, b, unread)"
          by (cases q) auto
        have "io_only (calculate a op b s1) (calculator_loop (calculate a op b s1))"
          using "1.IH"(2) [OF g [symmetric] \<open>x = Some l\<close> refl False Some [unfolded q] refl refl refl] .
        then have "io_only s (calculator_loop (calculate a op b s1))"
          using io_only_trans [OF io_only_trans [OF s1 io_only_calculate]] by blast
        with g \<open>x = Some l\<close> False Some q show ?thesis
          by (simp add: calculator_loop.simps [of s] Let_def)
      qed
    qed
  qed
qed

lemma io_only_runCalculator: "io_only s (runCalculator s)"
  unfolding runCalculator_def
  using io_only_trans [OF io_only_emit io_only_calculator_loop] .

lemma history_processInput: "history (processInput s input) = history s"
  using io_only_fields [OF io_only_runCalculator [of s]]
  by (simp add: processInput_def resolve_def showHelp_def showHistory_def showBanner_def
      randomInt_def currentDateTime_def elapsed_seconds_def botSayMultiline_def
      botSay_def emit_def Let_def split: option.splits)

lemma running_processInput:
  "running (processInput s input) \<longleftrightarrow> running s \<and> \<not> exit_token input"
  using io_only_fields [OF io_only_runCalculator [of s]]
  by (simp add: processInput_def exit_token_def resolve_def showHelp_def showHistory_def
      showBanner_def randomInt_def currentDateTime_def elapsed_seconds_def botSayMultiline_def
      botSay_def emit_def Let_def split: option.splits)

section \<open>The main loop, step by step\<close>

lemma chat_loop_stopped: "\<not> running s \<Longrightarrow> chat_loop s = s"
  by (simp add: chat_loop.simps [of s])

lemma chat_loop_eof:
  "running s \<Longrightarrow> stdin s = [] \<Longrightarrow> chat_loop s = emit [Newline, Prompt] s"
  using getline_Nil [of "emit [Newline, Prompt] s"]
  by (simp add: chat_loop.simps [of s] stdin_emit)

lemma chat_loop_skip:
  "running s \<Longrightarrow> stdin s = l # ls \<Longrightarrow> normalize l = [] \<Longrightarrow>
     chat_loop s = chat_loop ((emit [Newline, Prompt] s)\<lparr>stdin := ls\<rparr>)"
  using getline_Cons [of "emit [Newline, Prompt] s" l ls]
  by (simp add: chat_loop.simps [of s] stdin_emit)

lemma chat_loop_step:
  "running s \<Longrightarrow> stdin s = l # ls \<Longrightarrow> normalize l \<noteq> [] \<Longrightarrow>
     chat_loop s =
       chat_loop (processInput
         ((emit [Newline, Prompt] s)\<lparr>stdin := ls, history := history s @ [normalize l]\<rparr>)
         (normalize l))"
  using getline_Cons [of "emit [Newline, Prompt] s" l ls]
  by (simp add: chat_loop.simps [of s] stdin_emit emit_def Let_def)

lemma chat_loop_outcome: "running s \<Longrightarrow> loop_outcome s (chat_loop s)"
proof (induction s rule: chat_loop.induct)
  case (1 s)
  note run = \<open>running s\<close>
  show ?case
  proof (cases "stdin s")
    case Nil
    have "chat_loop s = emit [Newline, Prompt] s"
      using run Nil by (rule chat_loop_eof)
    then have "history (chat_loop s) = history s @ []" and "running (chat_loop s)"
      and "stdin (chat_loop s) = []"
      using run Nil by (simp_all add: emit_def)
    then show ?thesis
      unfolding loop_outcome_def by (intro exI [of _ "[]"]) simp
  next
    case (Cons l ls)
    let ?s1 = "(emit [Newline, Prompt] s)\<lparr>stdin := ls\<rparr>"
    have g: "getline (emit [Newline, Prompt] s) = (Some l, ?s1)"
      using Cons by (simp add: getline_Cons stdin_emit)
    show ?thesis
    proof (cases "normalize l = []")
      case True
      have eq: "chat_loop s = chat_loop ?s1"
        using run Cons True by (rule chat_loop_skip)
      have "running ?s1"
        using run by (simp add: emit_def)
      then have "loop_outcome ?s1 (chat_loop ?s1)"
        using "1.IH"(1) [OF _ g [symmetric] refl refl True] run by simp
      then show ?thesis
        unfolding eq loop_outcome_def by (simp add: emit_def)
    next
      case False
      let ?i = "normalize l"
      let ?s2 = "processInput (?s1\<lparr>history := history ?s1 @ [?i]\<rparr>) ?i"
      have s2: "?s2 = processInput
         ((emit [Newline, Prompt] s)\<lparr>stdin := ls, history := history s @ [?i]\<rparr>) ?i"
        by (simp add: emit_def)
      have eq: "chat_loop s = chat_loop ?s2"
        unfolding s2 using run Cons False by (rule chat_loop_step)
      have h2: "history ?s2 = history s @ [?i]"
        by (simp add: history_processInput emit_def)
      have r2: "running ?s2 \<longleftrightarrow> \<not> exit_token ?i"
        using run by (simp add: running_processInput emit_def)
      show ?thesis
      proof (cases "exit_token ?i")
        case True
        with r2 have "chat_loop ?s2 = ?s2"
          by (simp add: chat_loop_stopped)
        then have "history (chat_loop s) = history s @ [?i]" and "\<not> running (chat_loop s)"
          using eq h2 r2 True by simp_all
        then show ?thesis
          unfolding loop_outcome_def using True by (intro exI [of _ "[?i]"]) simp
      next
        case ne: False
        with r2 have "running ?s2" by simp
        then have "loop_outcome ?s2 (chat_loop ?s2)"
          using "1.IH"(2) [OF _ g [symmetric] refl refl False] run by simp
        then obtain hs where hs: "history (chat_loop ?s2) = history ?s2 @ hs"
          and b: "\<forall>h \<in> set (butlast hs). \<not> exit_token h"
          and d: "(\<not> running (chat_loop ?s2) \<and> hs \<noteq> [] \<and> exit_token (last hs)) \<or>
             (running (chat_loop ?s2) \<and> stdin (chat_loop ?s2) = [] \<and>
              (\<forall>h \<in> set hs. \<not> exit_token h))"
          unfolding loop_outcome_def by blast
        have "history (chat_loop s) = history s @ (?i # hs)"
          using eq hs h2 by simp
        moreover have "\<forall>h \<in> set (butlast (?i # hs)). \<not> exit_token h"
          using b ne by simp
        moreover have "(\<not> running (chat_loop s) \<and> ?i # hs \<noteq> [] \<and> exit_token (last (?i # hs))) \<or>
             (running (chat_loop s) \<and> stdin (chat_loop s) = [] \<and>
              (\<forall>h \<in> set (?i # hs). \<not> exit_token h))"
          using d ne eq by auto
        ultimately show ?thesis
          unfolding loop_outcome_def by blast
      qed
    qed
  qed
qed

lemma running_welcomeSequence: "running (snd (welcomeSequence s)) = running s"
  by (simp add: welcomeSequence_def getline_def botSay_def emit_def showHelp_def Let_def
      split: list.splits)

lemma running_showGoodbye: "running (showGoodbye s) = running s"
  by (simp add: showGoodbye_def elapsed_seconds_def emit_def Let_def)

lemma normalize_y: "normalize ''y'' = ''y''"
  by code_simp

lemma normalize_n: "normalize ''n'' = ''n''"
  by code_simp

lemma normalize_bye: "normalize ''bye'' = ''bye''"
  by code_simp

lemma normalize_empty_iff: "normalize l = [] \<longleftrightarrow> set l \<subseteq> set whitespace"
proof -
  let ?P = "\<lambda>c. c \<in> set whitespace"
  have "normalize l = [] \<longleftrightarrow> trim l = []"
    by (simp only: normalize_def toLower_def map_is_Nil_conv)
  also have "\<dots> \<longleftrightarrow> dropWhile ?P (rev (dropWhile ?P l)) = []"
    by (simp only: trim_dropWhile rev_is_Nil_conv)
  also have "\<dots> \<longleftrightarrow> dropWhile ?P l = []"
  proof
    assume "dropWhile ?P l = []"
    then show "dropWhile ?P (rev (dropWhile ?P l)) = []"
      by (simp only: rev.simps dropWhile.simps)
  next
    assume a: "dropWhile ?P (rev (dropWhile ?P l)) = []"
    show "dropWhile ?P l = []"
    proof (rule ccontr)
      assume ne: "dropWhile ?P l \<noteq> []"
      then have "\<not> ?P (hd (dropWhile ?P l))"
        by (rule hd_dropWhile)
      moreover have "hd (dropWhile ?P l) \<in> set (rev (dropWhile ?P l))"
        using hd_in_set [OF ne] by (simp only: set_rev)
      ultimately have "dropWhile ?P (rev (dropWhile ?P l)) \<noteq> []"
        unfolding dropWhile_eq_Nil_conv by blast
      with a show False by blast
    qed
  qed
  also have "\<dots> \<longleftrightarrow> set l \<subseteq> set whitespace"
    unfolding dropWhile_eq_Nil_conv by blast
  finally show ?thesis .
qed

lemma normalize_uptime: "normalize ''uptime'' = ''uptime''"
  by code_simp

lemma processInput_uptime:
  "input = ''uptime'' \<or> input = ''session'' \<Longrightarrow>
     stdout (processInput s input) =
       stdout s @ [Say ([CHR 0xE2, CHR 0x8F, CHR 0xB1, CHR 0xEF, CHR 0xB8, CHR 0x8F] @
                        ''  Session uptime: '' @ formatDuration (fst (elapsed_seconds s)) @
                        '' | Messages: '' @ to_string (length (history s)))]"
proof -
  have "stdout (processInput s ''uptime'') =
       stdout s @ [Say ([CHR 0xE2, CHR 0x8F, CHR 0xB1, CHR 0xEF, CHR 0xB8, CHR 0x8F] @
                        ''  Session uptime: '' @ formatDuration (fst (elapsed_seconds s)) @
                        '' | Messages: '' @ to_string (length (history s)))]"
    by (simp add: processInput_def elapsed_seconds_def botSay_def emit_def Let_def)
  moreover have "stdout (processInput s ''session'') =
       stdout s @ [Say ([CHR 0xE2, CHR 0x8F, CHR 0xB1, CHR 0xEF, CHR 0xB8, CHR 0x8F] @
                        ''  Session uptime: '' @ formatDuration (fst (elapsed_seconds s)) @
                        '' | Messages: '' @ to_string (length (history s)))]"
    by (simp add: processInput_def elapsed_seconds_def botSay_def emit_def Let_def)
  moreover assume "input = ''uptime'' \<or> input = ''session''"
  ultimately show ?thesis
    by blast
qed

lemma stdout_showGoodbye:
  "stdout (showGoodbye s) =
     stdout s @ [Newline, Separator,
                 Say (''Goodbye! Thanks for chatting. '' @ [CHR 0xF0, CHR 0x9F, CHR 0x91, CHR 0x8B]),
                 SessionSummary (formatDuration (fst (elapsed_seconds s))) (length (history s)),
                 Separator, Newline]"
  by (simp add: showGoodbye_def elapsed_seconds_def emit_def Let_def)

lemma formatDuration_0: "formatDuration 0 = ''0h 0m 0s''"
  by (simp add: formatDuration_def to_string.simps digit_char_def)

lemma to_string_1: "to_string (Suc 0) = ''1''"
  by (simp add: to_string.simps digit_char_def)

lemma processInput_uptime_quiet:
  "processInput (quiet_bot\<lparr>stdin := [''bye''], stdout := [Newline, Prompt],
               history := [''uptime'']\<rparr>) ''uptime'' =
   quiet_bot\<lparr>stdin := [''bye''], history := [''uptime''],
     stdout := [Newline, Prompt, Say ([CHR 0xE2, CHR 0x8F, CHR 0xB1, CHR 0xEF, CHR 0xB8, CHR 0x8F] @
           ''  Session uptime: 0h 0m 0s | Messages: 1'')], observations := 2\<rparr>"
  by (simp add: processInput_def elapsed_seconds_def botSay_def emit_def Let_def
        quiet_bot_def ChatBot_def formatDuration_0 to_string_1)

lemma processInput_bye: "processInput b ''bye'' = b\<lparr>running := False\<rparr>"
  by (simp add: processInput_def)


section \<open>The claims\<close>

text \<open>
  Claim C1. For every canonical phrase that is a key of the lexicon (the map
  \<open>responses_\<close>), processing the phrase answers exactly the response stored under it;
  and for every key of the alias map, processing the alias answers the response stored
  under the alias's target, which is itself a key of the lexicon.
\<close>

theorem lexicon_and_alias_resolution:
  "constructed s \<Longrightarrow>
     (\<forall>key response. find_key (responses s) key = Some response \<longrightarrow>
        processInput s key = botSay response s) \<and>
     (\<forall>phrase key. find_key (aliases s) phrase = Some key \<longrightarrow>
        (\<exists>response. find_key (responses s) key = Some response \<and>
           processInput s phrase = botSay response s))"
proof (intro conjI allI impI)
  fix key response
  assume c: "constructed s" and f: "find_key (responses s) key = Some response"
  then have m: "map_of initResponses key = Some response"
    by (simp add: find_key_responses)
  then have "(key, response) \<in> set initResponses"
    by (rule map_of_SomeD)
  with keys_not_commands have n: "\<not> command_input key" and a: "map_of initAliases key = None"
    by (auto simp: list_all_iff)
  from c a have "find_key (aliases s) key = None"
    by (simp add: find_key_aliases)
  with f show "processInput s key = botSay response s"
    by (simp add: processInput_resolve [OF n] resolve_def)
next
  fix phrase key
  assume c: "constructed s" and f: "find_key (aliases s) phrase = Some key"
  then have "map_of initAliases phrase = Some key"
    by (simp add: find_key_aliases)
  then have "(phrase, key) \<in> set initAliases"
    by (rule map_of_SomeD)
  with aliases_not_commands have n: "\<not> command_input phrase"
    and "map_of initResponses key \<noteq> None"
    by (auto simp: list_all_iff)
  then obtain response where "map_of initResponses key = Some response"
    by blast
  with c have r: "find_key (responses s) key = Some response"
    by (simp add: find_key_responses)
  with f have "processInput s phrase = botSay response s"
    by (simp add: processInput_resolve [OF n] resolve_def)
  with r show "\<exists>response. find_key (responses s) key = Some response \<and>
      processInput s phrase = botSay response s"
    by blast
qed

theorem lexicon_and_alias_resolution_witness:
  "constructed quiet_bot \<and>
   find_key (responses quiet_bot) ''hello'' = Some ''Hi there! How can I help you today?'' \<and>
   processInput quiet_bot ''hello'' = botSay ''Hi there! How can I help you today?'' quiet_bot \<and>
   find_key (aliases quiet_bot) ''greetings'' = Some ''hello'' \<and>
   processInput quiet_bot ''greetings'' = botSay ''Hi there! How can I help you today?'' quiet_bot"
proof -
  have k: "find_key (responses quiet_bot) ''hello'' = Some ''Hi there! How can I help you today?''"
    by (simp add: quiet_bot_def ChatBot_def find_key_def initResponses_def)
  have a: "find_key (aliases quiet_bot) ''greetings'' = Some ''hello''"
    by (simp add: quiet_bot_def ChatBot_def find_key_def initAliases_def)
  from lexicon_and_alias_resolution [OF constructed_quiet_bot]
  have "processInput quiet_bot ''hello'' = botSay ''Hi there! How can I help you today?'' quiet_bot"
    and "\<exists>response. find_key (responses quiet_bot) ''hello'' = Some response \<and>
           processInput quiet_bot ''greetings'' = botSay response quiet_bot"
    using k a by blast+
  then show ?thesis
    using constructed_quiet_bot k a by auto
qed

text \<open>
  Claim C2. For every normalized input that is no command, no key of the lexicon and no
  alias: if it contains a key of the lexicon of at least three characters as a
  substring, the answer is the response of such a key; if every key of the lexicon that
  it contains is shorter than three characters, the answer is the fixed two-line reply
  for no match. The iteration order of the map is arbitrary.
\<close>

theorem substring_fallback:
  "constructed s \<Longrightarrow> \<not> command_input input \<Longrightarrow>
   find_key (responses s) input = None \<Longrightarrow> find_key (aliases s) input = None \<Longrightarrow>
     ((\<exists>key response. find_key (responses s) key = Some response \<and>
          3 \<le> length key \<and> sublist key input) \<longrightarrow>
      (\<exists>key response. find_key (responses s) key = Some response \<and>
          3 \<le> length key \<and> sublist key input \<and>
          processInput s input = botSay response s)) \<and>
     ((\<forall>key response. find_key (responses s) key = Some response \<and> sublist key input
          \<longrightarrow> length key < 3) \<longrightarrow>
      processInput s input =
        botSayMultiline
          [''Hmm, I don'' @ [CHR 0x27] @ ''t quite understand that. '' @
             [CHR 0xF0, CHR 0x9F, CHR 0xA4, CHR 0x94],
           ''Try '' @ [CHR 0x27] @ ''help'' @ [CHR 0x27] @
             '' to see what I can do, or just say hi!''] s)"
proof (intro conjI impI)
  assume c: "constructed s" and n: "\<not> command_input input"
    and r: "find_key (responses s) input = None" and a: "find_key (aliases s) input = None"
  assume "\<exists>key response. find_key (responses s) key = Some response \<and>
          3 \<le> length key \<and> sublist key input"
  then obtain key response where "find_key (responses s) key = Some response"
    and "3 \<le> length key" and "sublist key input"
    by blast
  then have "(key, response) \<in> set (responses s) \<and> sublist key input \<and> 3 \<le> length key"
    using c find_key_Some_iff [of s key response] by blast
  then have "partial_match (responses s) input \<noteq> None"
    unfolding partial_match_None by blast
  then obtain response' where p: "partial_match (responses s) input = Some response'"
    by blast
  then obtain key' where "(key', response') \<in> set (responses s)"
    and "sublist key' input" and "3 \<le> length key'"
    using partial_match_Some by blast
  then have "find_key (responses s) key' = Some response' \<and> 3 \<le> length key' \<and>
      sublist key' input"
    using c find_key_Some_iff [of s key' response'] by blast
  moreover have "processInput s input = botSay response' s"
    using r a p by (simp add: processInput_resolve [OF n] resolve_def)
  ultimately show "\<exists>key response. find_key (responses s) key = Some response \<and>
          3 \<le> length key \<and> sublist key input \<and>
          processInput s input = botSay response s"
    by blast
next
  assume c: "constructed s" and n: "\<not> command_input input"
    and r: "find_key (responses s) input = None" and a: "find_key (aliases s) input = None"
  assume "\<forall>key response. find_key (responses s) key = Some response \<and> sublist key input
          \<longrightarrow> length key < 3"
  then have "\<forall>key response. (key, response) \<in> set (responses s) \<longrightarrow>
      \<not> (sublist key input \<and> 3 \<le> length key)"
    using c find_key_Some_iff [of s] by (metis not_le)
  then have "partial_match (responses s) input = None"
    unfolding partial_match_None .
  with r a show "processInput s input =
        botSayMultiline
          [''Hmm, I don'' @ [CHR 0x27] @ ''t quite understand that. '' @
             [CHR 0xF0, CHR 0x9F, CHR 0xA4, CHR 0x94],
           ''Try '' @ [CHR 0x27] @ ''help'' @ [CHR 0x27] @
             '' to see what I can do, or just say hi!''] s"
    by (simp add: processInput_resolve [OF n] resolve_def)
qed

theorem substring_fallback_witness:
  "constructed quiet_bot \<and>
   \<not> command_input ''well hello there'' \<and>
   find_key (responses quiet_bot) ''well hello there'' = None \<and>
   find_key (aliases quiet_bot) ''well hello there'' = None \<and>
   (\<exists>key response. find_key (responses quiet_bot) key = Some response \<and>
      3 \<le> length key \<and> sublist key ''well hello there'' \<and>
      processInput quiet_bot ''well hello there'' = botSay response quiet_bot) \<and>
   \<not> command_input ''hi there'' \<and>
   find_key (responses quiet_bot) ''hi there'' = None \<and>
   find_key (aliases quiet_bot) ''hi there'' = None \<and>
   sublist ''hi'' ''hi there'' \<and>
   processInput quiet_bot ''hi there'' =
     botSayMultiline
       [''Hmm, I don'' @ [CHR 0x27] @ ''t quite understand that. '' @
          [CHR 0xF0, CHR 0x9F, CHR 0xA4, CHR 0x94],
        ''Try '' @ [CHR 0x27] @ ''help'' @ [CHR 0x27] @
          '' to see what I can do, or just say hi!''] quiet_bot"
proof -
  have rs: "responses quiet_bot = initResponses" and as: "aliases quiet_bot = initAliases"
    by (simp_all add: quiet_bot_def ChatBot_def)
  have n1: "\<not> command_input ''well hello there''"
    by code_simp
  have r1: "find_key (responses quiet_bot) ''well hello there'' = None"
    unfolding rs find_key_def by code_simp
  have a1: "find_key (aliases quiet_bot) ''well hello there'' = None"
    unfolding as find_key_def by code_simp
  have k1: "find_key (responses quiet_bot) ''hello'' = Some ''Hi there! How can I help you today?''"
    unfolding rs find_key_def by code_simp
  have "find_str ''well hello there'' ''hello'' \<noteq> None"
    by code_simp
  then have s1: "sublist ''hello'' ''well hello there''"
    unfolding find_str_sublist .
  have l1: "3 \<le> length ''hello''"
    by simp
  have n2: "\<not> command_input ''hi there''"
    by code_simp
  have r2: "find_key (responses quiet_bot) ''hi there'' = None"
    unfolding rs find_key_def by code_simp
  have a2: "find_key (aliases quiet_bot) ''hi there'' = None"
    unfolding as find_key_def by code_simp
  have "find_str ''hi there'' ''hi'' \<noteq> None"
    by code_simp
  then have s2: "sublist ''hi'' ''hi there''"
    unfolding find_str_sublist .
  have "list_all (\<lambda>(key, response). find_str ''hi there'' key \<noteq> None \<longrightarrow> length key < 3)
          initResponses"
    by code_simp
  then have "\<forall>key response. (key, response) \<in> set initResponses \<and> sublist key ''hi there''
      \<longrightarrow> length key < 3"
    unfolding find_str_sublist list_all_iff by blast
  then have short: "\<forall>key response. find_key (responses quiet_bot) key = Some response \<and>
      sublist key ''hi there'' \<longrightarrow> length key < 3"
    using find_key_Some_iff [OF constructed_quiet_bot] unfolding rs by blast
  have e1: "\<exists>key response. find_key (responses quiet_bot) key = Some response \<and>
      3 \<le> length key \<and> sublist key ''well hello there''"
    using k1 l1 s1 by blast
  from substring_fallback [OF constructed_quiet_bot n1 r1 a1] e1
  have c1: "\<exists>key response. find_key (responses quiet_bot) key = Some response \<and>
      3 \<le> length key \<and> sublist key ''well hello there'' \<and>
      processInput quiet_bot ''well hello there'' = botSay response quiet_bot"
    by blast
  from substring_fallback [OF constructed_quiet_bot n2 r2 a2] short
  have c2: "processInput quiet_bot ''hi there'' =
     botSayMultiline
       [''Hmm, I don'' @ [CHR 0x27] @ ''t quite understand that. '' @
          [CHR 0xF0, CHR 0x9F, CHR 0xA4, CHR 0x94],
        ''Try '' @ [CHR 0x27] @ ''help'' @ [CHR 0x27] @
          '' to see what I can do, or just say hi!''] quiet_bot"
    by blast
  show ?thesis
    using constructed_quiet_bot n1 r1 a1 c1 n2 r2 a2 s2 c2 by blast
qed




text \<open>
  Claim C4, as amended. In the calculator, a line that parses as \<open>a / b\<close> with
  \<open>b = 0\<close> is answered by the warning of a division by zero alone, which holds no
  \<open>=\<close>: no result is said, and the loop goes on to read the next line. A line on which
  the extraction of a number, an operator character and a number fails (so every line
  that is empty or begins with a character no number begins with), and that is not one
  of the words that leave the calculator, is answered by the usage warning; a line that
  is extracted with an operator other than \<open>+ - * x /\<close> is answered by the warning of
  an unknown operator instead. The loop goes on in both cases.
\<close>

theorem calculator_recovers:
  "stdin s = l # ls \<Longrightarrow>
     (\<forall>a b unread. parse_expression (trim l) = Some (a, CHR ''/'', b, unread) \<and> is_zero b \<longrightarrow>
        calculator_loop s =
          calculator_loop (botSay division_warning ((emit [CalcPrompt] s)\<lparr>stdin := ls\<rparr>))) \<and>
     (\<not> calculator_exit_word (trim l) \<and> parse_expression (trim l) = None \<longrightarrow>
        calculator_loop s =
          calculator_loop (botSay usage_warning ((emit [CalcPrompt] s)\<lparr>stdin := ls\<rparr>))) \<and>
     (\<not> calculator_exit_word (trim l) \<and> (trim l = [] \<or> \<not> starts_number (hd (trim l))) \<longrightarrow>
        calculator_loop s =
          calculator_loop (botSay usage_warning ((emit [CalcPrompt] s)\<lparr>stdin := ls\<rparr>))) \<and>
     (\<forall>a op b unread. parse_expression (trim l) = Some (a, op, b, unread) \<and>
          op \<notin> set ''+-*x/'' \<longrightarrow>
        calculator_loop s =
          calculator_loop (botSay (unknown_operator_warning op)
            ((emit [CalcPrompt] s)\<lparr>stdin := ls\<rparr>))) \<and>
     CHR ''='' \<notin> set division_warning \<and> CHR ''='' \<notin> set usage_warning"
proof (intro conjI allI impI)
  fix a b unread
  assume i: "stdin s = l # ls"
    and "parse_expression (trim l) = Some (a, CHR ''/'', b, unread) \<and> is_zero b"
  then have p: "parse_expression (trim l) = Some (a, CHR ''/'', b, unread)" and z: "is_zero b"
    by simp_all
  show "calculator_loop s =
      calculator_loop (botSay division_warning ((emit [CalcPrompt] s)\<lparr>stdin := ls\<rparr>))"
    unfolding calculator_loop_parsed [OF i p] calculate_division_by_zero [OF z] ..
next
  assume i: "stdin s = l # ls"
    and "\<not> calculator_exit_word (trim l) \<and> parse_expression (trim l) = None"
  then show "calculator_loop s =
      calculator_loop (botSay usage_warning ((emit [CalcPrompt] s)\<lparr>stdin := ls\<rparr>))"
    by (simp add: calculator_loop_malformed)
next
  assume i: "stdin s = l # ls"
    and "\<not> calculator_exit_word (trim l) \<and> (trim l = [] \<or> \<not> starts_number (hd (trim l)))"
  then have "\<not> calculator_exit_word (trim l)" and "parse_expression (trim l) = None"
    using parse_expression_nonnumeric [of "trim l"] by blast+
  with i show "calculator_loop s =
      calculator_loop (botSay usage_warning ((emit [CalcPrompt] s)\<lparr>stdin := ls\<rparr>))"
    by (simp add: calculator_loop_malformed)
next
  fix a op b unread
  assume i: "stdin s = l # ls"
    and "parse_expression (trim l) = Some (a, op, b, unread) \<and> op \<notin> set ''+-*x/''"
  then have p: "parse_expression (trim l) = Some (a, op, b, unread)"
    and u: "op \<notin> set ''+-*x/''"
    by simp_all
  show "calculator_loop s =
      calculator_loop (botSay (unknown_operator_warning op)
        ((emit [CalcPrompt] s)\<lparr>stdin := ls\<rparr>))"
    unfolding calculator_loop_parsed [OF i p] calculate_unknown_operator [OF u] ..
next
  show "CHR ''='' \<notin> set division_warning"
    by (simp add: division_warning_def)
next
  show "CHR ''='' \<notin> set usage_warning"
    by (simp add: usage_warning_def)
qed

theorem calculator_recovers_witness:
  "stdin (quiet_bot\<lparr>stdin := [''10 / 0'', ''bad input'']\<rparr>) = [''10 / 0'', ''bad input''] \<and>
   parse_expression (trim ''10 / 0'') = Some (Fin False 10, CHR ''/'', Fin False 0, []) \<and>
   is_zero (Fin False 0) \<and>
   \<not> calculator_exit_word (trim ''bad input'') \<and> parse_expression (trim ''bad input'') = None \<and>
   \<not> starts_number (hd (trim ''bad input'')) \<and>
   stdout (calculator_loop (quiet_bot\<lparr>stdin := [''10 / 0'', ''bad input'']\<rparr>)) =
     [CalcPrompt, Say division_warning, CalcPrompt, Say usage_warning, CalcPrompt]"
proof -
  let ?s = "quiet_bot\<lparr>stdin := [''10 / 0'', ''bad input'']\<rparr>"
  let ?s1 = "botSay division_warning ((emit [CalcPrompt] ?s)\<lparr>stdin := [''bad input'']\<rparr>)"
  let ?s2 = "botSay usage_warning ((emit [CalcPrompt] ?s1)\<lparr>stdin := []\<rparr>)"
  have i: "stdin ?s = [''10 / 0'', ''bad input'']"
    by simp
  have p: "parse_expression (trim ''10 / 0'') = Some (Fin False 10, CHR ''/'', Fin False 0, [])"
    by (simp only: trim_10_by_0 parse_10_by_0)
  have z: "is_zero (Fin False 0)"
    by simp
  have i1: "stdin ?s1 = [''bad input'']"
    by (simp add: botSay_def emit_def)
  have x: "\<not> calculator_exit_word (trim ''bad input'')"
    by (simp only: trim_bad_input not_exit_bad_input not_False_eq_True)
  have q: "parse_expression (trim ''bad input'') = None"
    by (simp only: trim_bad_input parse_bad_input)
  have n: "\<not> starts_number (hd (trim ''bad input''))"
    unfolding trim_bad_input by (simp add: starts_number_def isspace_def is_digit_def)
  have "calculator_loop ?s = calculator_loop ?s1"
    using calculator_recovers [OF i] p z by blast
  also have "\<dots> = calculator_loop ?s2"
    using calculator_recovers [OF i1] x n by blast
  also have "\<dots> = emit [CalcPrompt] ?s2"
    by (rule calculator_loop_eof) (simp add: botSay_def emit_def)
  finally have "stdout (calculator_loop ?s) =
      [CalcPrompt, Say division_warning, CalcPrompt, Say usage_warning, CalcPrompt]"
    by (simp add: botSay_def emit_def quiet_bot_def ChatBot_def)
  with i p z x q n show ?thesis
    by simp
qed

text \<open>
  Claim C4 as stated fails: not every malformed line gets the usage warning. The line
  \<open>5 ^ 3\<close>, with an unknown operator, gets the warning of an unknown operator, and the
  line \<open>5 + 3 + 4\<close>, with two tokens too many, is computed as \<open>5 + 3\<close>.
\<close>

theorem calculator_usage_counterexample:
  "stdout (calculator_loop (quiet_bot\<lparr>stdin := [''5 ^ 3'']\<rparr>)) =
     [CalcPrompt, Say (unknown_operator_warning (CHR ''^'')), CalcPrompt] \<and>
   unknown_operator_warning (CHR ''^'') \<noteq> usage_warning \<and>
   stdout (calculator_loop (quiet_bot\<lparr>stdin := [''5 + 3 + 4'']\<rparr>)) =
     [CalcPrompt, Say (check_mark @ ''5.0000 + 3.0000 = 8''), CalcPrompt] \<and>
   check_mark @ ''5.0000 + 3.0000 = 8'' \<noteq> usage_warning"
proof -
  have one: "stdout (calculator_loop (quiet_bot\<lparr>stdin := [''5 ^ 3'']\<rparr>)) =
     [CalcPrompt, Say (unknown_operator_warning (CHR ''^'')), CalcPrompt]"
  proof -
    let ?s = "quiet_bot\<lparr>stdin := [''5 ^ 3'']\<rparr>"
    have i: "stdin ?s = [''5 ^ 3'']"
      by simp
    have p: "parse_expression (trim ''5 ^ 3'') = Some (Fin False 5, CHR ''^'', Fin False 3, [])"
      by (simp only: trim_5_hat_3 parse_5_hat_3)
    have u: "CHR ''^'' \<notin> set ''+-*x/''"
      by simp
    have "calculator_loop ?s =
        calculator_loop (botSay (unknown_operator_warning (CHR ''^''))
          ((emit [CalcPrompt] ?s)\<lparr>stdin := []\<rparr>))"
      unfolding calculator_loop_parsed [OF i p] calculate_unknown_operator [OF u] ..
    also have "\<dots> = emit [CalcPrompt] (botSay (unknown_operator_warning (CHR ''^''))
          ((emit [CalcPrompt] ?s)\<lparr>stdin := []\<rparr>))"
      by (rule calculator_loop_eof) (simp add: botSay_def emit_def)
    finally show ?thesis
      by (simp add: botSay_def emit_def quiet_bot_def ChatBot_def)
  qed
  have two: "stdout (calculator_loop (quiet_bot\<lparr>stdin := [''5 + 3 + 4'']\<rparr>)) =
     [CalcPrompt, Say (check_mark @ ''5.0000 + 3.0000 = 8''), CalcPrompt]"
  proof -
    let ?s = "quiet_bot\<lparr>stdin := [''5 + 3 + 4'']\<rparr>"
    have i: "stdin ?s = [''5 + 3 + 4'']"
      by simp
    have p: "parse_expression (trim ''5 + 3 + 4'') =
        Some (Fin False 5, CHR ''+'', Fin False 3, '' + 4'')"
      by (simp only: trim_5_plus_3_plus_4 parse_5_plus_3_plus_4)
    have v: "calculate (Fin False 5) (CHR ''+'') (Fin False 3) t
        = botSay (check_mark @ ''5.0000 + 3.0000 = 8'') t" for t
      using calculate_valid [of "CHR ''+''" "Fin False 3" "Fin False 5"]
      by (simp add: result_text_strip text_5_plus_3 [simplified])
    have "calculator_loop ?s =
        calculator_loop (botSay (check_mark @ ''5.0000 + 3.0000 = 8'')
          ((emit [CalcPrompt] ?s)\<lparr>stdin := []\<rparr>))"
      using calculator_loop_parsed [OF i p] unfolding v .
    also have "\<dots> = emit [CalcPrompt] (botSay (check_mark @ ''5.0000 + 3.0000 = 8'')
          ((emit [CalcPrompt] ?s)\<lparr>stdin := []\<rparr>))"
      by (rule calculator_loop_eof) (simp add: botSay_def emit_def)
    finally show ?thesis
      by (simp add: botSay_def emit_def quiet_bot_def ChatBot_def)
  qed
  have "unknown_operator_warning (CHR ''^'') \<noteq> usage_warning"
    by (simp add: unknown_operator_warning_def usage_warning_def)
  moreover have "check_mark @ ''5.0000 + 3.0000 = 8'' \<noteq> usage_warning"
    by (simp add: check_mark_def usage_warning_def)
  ultimately show ?thesis
    using one two by simp
qed

text \<open>
  Claim C5, as amended. The running flag is true at the start of the session; processing
  an input lowers it exactly when the input is one of the exit tokens \<open>bye\<close>, \<open>exit\<close>,
  \<open>quit\<close>, \<open>q\<close>, and nothing raises it or lowers it otherwise (the banner, the welcome
  flow and the goodbye leave it alone); the main loop ends either with the flag down,
  right after the one exit token it recorded, or with the flag still up at the end of the
  input.
\<close>

theorem running_flag:
  "running (ChatBot rs as input clock wall rng) \<and>
   (\<forall>(s::chatbot) input. running (processInput s input) \<longleftrightarrow> running s \<and> \<not> exit_token input) \<and>
   (\<forall>s::chatbot. running (showBanner s) = running s \<and>
      running (snd (welcomeSequence s)) = running s \<and>
      running (showGoodbye s) = running s) \<and>
   (\<forall>s::chatbot. running s \<longrightarrow> loop_outcome s (chat_loop s))"
  by (simp add: ChatBot_def running_processInput running_welcomeSequence running_showGoodbye
      showBanner_def emit_def chat_loop_outcome)

theorem running_flag_witness:
  "running (quiet_bot\<lparr>stdin := [''bye'', ''hello'']\<rparr>) \<and>
   exit_token ''bye'' \<and>
   \<not> running (processInput (quiet_bot\<lparr>stdin := [''bye'', ''hello'']\<rparr>) ''bye'') \<and>
   loop_outcome (quiet_bot\<lparr>stdin := [''bye'', ''hello'']\<rparr>)
     (chat_loop (quiet_bot\<lparr>stdin := [''bye'', ''hello'']\<rparr>)) \<and>
   \<not> running (chat_loop (quiet_bot\<lparr>stdin := [''bye'', ''hello'']\<rparr>)) \<and>
   history (chat_loop (quiet_bot\<lparr>stdin := [''bye'', ''hello'']\<rparr>)) = [''bye''] \<and>
   stdin (chat_loop (quiet_bot\<lparr>stdin := [''bye'', ''hello'']\<rparr>)) = [''hello'']"
proof -
  let ?s = "quiet_bot\<lparr>stdin := [''bye'', ''hello'']\<rparr>"
  let ?s1 = "(emit [Newline, Prompt] ?s)\<lparr>stdin := [''hello''], history := history ?s @ [''bye'']\<rparr>"
  have r: "running ?s"
    by (simp add: quiet_bot_def ChatBot_def)
  have e: "exit_token ''bye''"
    by (simp add: exit_token_def)
  have i: "stdin ?s = [''bye'', ''hello'']"
    by simp
  have n: "normalize ''bye'' \<noteq> []"
    by (simp add: normalize_bye)
  from running_flag [of initResponses initAliases "[]" "\<lambda>k. 0" "\<lambda>k. []" "\<lambda>k. 0"]
  have p: "\<not> running (processInput ?s ''bye'')" and o: "loop_outcome ?s (chat_loop ?s)"
    and p1: "\<not> running (processInput ?s1 ''bye'')"
    using r e by blast+
  have "chat_loop ?s = chat_loop (processInput ?s1 ''bye'')"
    using chat_loop_step [OF r i n] by (simp add: normalize_bye)
  also have "\<dots> = processInput ?s1 ''bye''"
    using p1 by (rule chat_loop_stopped)
  finally have c: "chat_loop ?s = processInput ?s1 ''bye''" .
  have "history (chat_loop ?s) = [''bye'']"
    unfolding c by (simp add: history_processInput emit_def quiet_bot_def ChatBot_def)
  moreover have "stdin (chat_loop ?s) = [''hello'']"
    unfolding c by (simp add: processInput_def)
  moreover have "\<not> running (chat_loop ?s)"
    unfolding c using p1 .
  ultimately show ?thesis
    using r e p o by simp
qed

text \<open>
  Claim C5 as stated fails: the flag being down is not the only way the main loop ends.
  At the end of the input the loop ends with the flag up, and a whole session
  (\<open>y\<close>, \<open>n\<close>, end of input) finishes without the flag ever being lowered.
\<close>

theorem running_flag_counterexample:
  "stdin quiet_bot = [] \<and> chat_loop quiet_bot = emit [Newline, Prompt] quiet_bot \<and>
   running (chat_loop quiet_bot) \<and>
   running (main initResponses initAliases [''y'', ''n''] (\<lambda>k. 0) (\<lambda>k. []) (\<lambda>k. 0))"
proof -
  have i: "stdin quiet_bot = []" and r: "running quiet_bot"
    by (simp_all add: quiet_bot_def ChatBot_def)
  have c: "chat_loop quiet_bot = emit [Newline, Prompt] quiet_bot"
    using r i by (rule chat_loop_eof)
  have rc: "running (chat_loop quiet_bot)"
    unfolding c using r by (simp add: emit_def)
  let ?b = "ChatBot initResponses initAliases [''y'', ''n''] (\<lambda>k. 0) (\<lambda>k. []) (\<lambda>k. 0)"
  obtain s1 where w: "welcomeSequence (showBanner ?b) = (True, s1)" and i1: "stdin s1 = []"
    and r1: "running s1"
    by (simp add: welcomeSequence_def showBanner_def getline_def botSay_def emit_def
        ChatBot_def normalize_y normalize_n Let_def)
  have "chat_loop s1 = emit [Newline, Prompt] s1"
    using r1 i1 by (rule chat_loop_eof)
  then have "run ?b = showGoodbye (emit [Newline, Prompt] s1)"
    by (simp add: run_def w)
  then have "running (main initResponses initAliases [''y'', ''n''] (\<lambda>k. 0) (\<lambda>k. []) (\<lambda>k. 0))"
    using r1 by (simp add: main_def running_showGoodbye emit_def)
  with i c rc show ?thesis
    by simp
qed

text \<open>
  Claim C7. A raw input line whose normalized form is empty, which is a line of nothing
  but spaces, tabs, carriage returns and line feeds, is skipped by the main loop: the
  loop goes on from the same state with the line read and the next prompt printed, so
  nothing is processed, no reply or error is said, and the history is as it was.
\<close>

theorem empty_input_skipped:
  "(normalize l = [] \<longleftrightarrow> set l \<subseteq> set whitespace) \<and>
   (running s \<and> stdin s = l # ls \<and> normalize l = [] \<longrightarrow>
      chat_loop s = chat_loop (s\<lparr>stdin := ls, stdout := stdout s @ [Newline, Prompt]\<rparr>))"
proof (intro conjI impI)
  show "normalize l = [] \<longleftrightarrow> set l \<subseteq> set whitespace"
    by (rule normalize_empty_iff)
next
  assume "running s \<and> stdin s = l # ls \<and> normalize l = []"
  then have "chat_loop s = chat_loop ((emit [Newline, Prompt] s)\<lparr>stdin := ls\<rparr>)"
    by (simp add: chat_loop_skip)
  moreover have "(emit [Newline, Prompt] s)\<lparr>stdin := ls\<rparr> =
      s\<lparr>stdin := ls, stdout := stdout s @ [Newline, Prompt]\<rparr>"
    by (simp add: emit_def)
  ultimately show "chat_loop s = chat_loop (s\<lparr>stdin := ls, stdout := stdout s @ [Newline, Prompt]\<rparr>)"
    by simp
qed

theorem empty_input_skipped_witness:
  "running (quiet_bot\<lparr>stdin := ['' '' @ [CHR 0x09] @ '' '', []]\<rparr>) \<and>
   stdin (quiet_bot\<lparr>stdin := ['' '' @ [CHR 0x09] @ '' '', []]\<rparr>) = ['' '' @ [CHR 0x09] @ '' '', []] \<and>
   set ('' '' @ [CHR 0x09] @ '' '') \<subseteq> set whitespace \<and>
   normalize ('' '' @ [CHR 0x09] @ '' '') = [] \<and> normalize [] = [] \<and>
   chat_loop (quiet_bot\<lparr>stdin := ['' '' @ [CHR 0x09] @ '' '', []]\<rparr>) =
     quiet_bot\<lparr>stdout := [Newline, Prompt, Newline, Prompt, Newline, Prompt]\<rparr>"
proof -
  let ?l = "'' '' @ [CHR 0x09] @ '' ''"
  let ?s = "quiet_bot\<lparr>stdin := [?l, []]\<rparr>"
  let ?s1 = "?s\<lparr>stdin := [[]], stdout := stdout ?s @ [Newline, Prompt]\<rparr>"
  let ?s2 = "?s1\<lparr>stdin := [], stdout := stdout ?s1 @ [Newline, Prompt]\<rparr>"
  have w: "set ?l \<subseteq> set whitespace" and w0: "set [] \<subseteq> set whitespace"
    by (simp_all add: whitespace_def)
  have n: "normalize ?l = []"
    using empty_input_skipped [of ?l] w by blast
  have n0: "normalize [] = []"
    using empty_input_skipped [of "[]"] w0 by blast
  have r: "running ?s" and r1: "running ?s1" and r2: "running ?s2"
    by (simp_all add: quiet_bot_def ChatBot_def)
  have i: "stdin ?s = [?l, []]" and i1: "stdin ?s1 = [[]]" and i2: "stdin ?s2 = []"
    by simp_all
  have "chat_loop ?s = chat_loop ?s1"
    using empty_input_skipped [of ?l ?s "[[]]"] r i n by blast
  also have "\<dots> = chat_loop ?s2"
    using empty_input_skipped [of "[]" ?s1 "[]"] r1 i1 n0 by blast
  also have "\<dots> = emit [Newline, Prompt] ?s2"
    using r2 i2 by (rule chat_loop_eof)
  also have "\<dots> = quiet_bot\<lparr>stdout := [Newline, Prompt, Newline, Prompt, Newline, Prompt]\<rparr>"
    by (simp add: emit_def quiet_bot_def ChatBot_def)
  finally show ?thesis
    using r i w n n0 by blast
qed

text \<open>
  Claim C8. Normalization is idempotent: for every string \<open>s\<close>,
  \<open>normalize (normalize s) = normalize s\<close>, where \<open>normalize\<close> trims leading and
  trailing whitespace (space, tab, CR, LF) and then lowercases the ASCII letters.
\<close>

theorem normalize_idempotent: "normalize (normalize s) = normalize s"
  unfolding normalize_def trim_toLower toLower_idem trim_idem ..

text \<open>
  Claim C9. Every input of the main loop whose normalized form is not empty is
  appended to the history once, before it is processed: the loop goes on with the
  result of processing the input in the state whose history already ends with it, and
  processing an input, a command and an exit token included, never touches the history.
  So the message count said by \<open>uptime\<close> counts the command \<open>uptime\<close> itself, and the count
  of the goodbye line counts the commands and the final exit token.
\<close>

theorem history_records_inputs:
  "(running s \<and> stdin s = l # ls \<and> normalize l \<noteq> [] \<longrightarrow>
      chat_loop s =
        chat_loop (processInput
          (s\<lparr>stdin := ls, stdout := stdout s @ [Newline, Prompt],
              history := history s @ [normalize l]\<rparr>)
          (normalize l))) \<and>
   history (processInput s input) = history s \<and>
   (input = ''uptime'' \<or> input = ''session'' \<longrightarrow>
      stdout (processInput s input) =
        stdout s @ [Say ([CHR 0xE2, CHR 0x8F, CHR 0xB1, CHR 0xEF, CHR 0xB8, CHR 0x8F] @
                         ''  Session uptime: '' @ formatDuration (fst (elapsed_seconds s)) @
                         '' | Messages: '' @ to_string (length (history s)))]) \<and>
   stdout (showGoodbye s) =
     stdout s @ [Newline, Separator,
                 Say (''Goodbye! Thanks for chatting. '' @ [CHR 0xF0, CHR 0x9F, CHR 0x91, CHR 0x8B]),
                 SessionSummary (formatDuration (fst (elapsed_seconds s))) (length (history s)),
                 Separator, Newline]"
proof (intro conjI impI)
  assume "running s \<and> stdin s = l # ls \<and> normalize l \<noteq> []"
  then have "chat_loop s =
       chat_loop (processInput
         ((emit [Newline, Prompt] s)\<lparr>stdin := ls, history := history s @ [normalize l]\<rparr>)
         (normalize l))"
    by (simp add: chat_loop_step)
  moreover have "(emit [Newline, Prompt] s)\<lparr>stdin := ls, history := history s @ [normalize l]\<rparr>
      = s\<lparr>stdin := ls, stdout := stdout s @ [Newline, Prompt],
           history := history s @ [normalize l]\<rparr>"
    by (simp add: emit_def)
  ultimately show "chat_loop s =
        chat_loop (processInput
          (s\<lparr>stdin := ls, stdout := stdout s @ [Newline, Prompt],
              history := history s @ [normalize l]\<rparr>)
          (normalize l))"
    by simp
next
  show "history (processInput s input) = history s"
    by (rule history_processInput)
next
  assume "input = ''uptime'' \<or> input = ''session''"
  then show "stdout (processInput s input) =
        stdout s @ [Say ([CHR 0xE2, CHR 0x8F, CHR 0xB1, CHR 0xEF, CHR 0xB8, CHR 0x8F] @
                         ''  Session uptime: '' @ formatDuration (fst (elapsed_seconds s)) @
                         '' | Messages: '' @ to_string (length (history s)))]"
    by (rule processInput_uptime)
next
  show "stdout (showGoodbye s) =
     stdout s @ [Newline, Separator,
                 Say (''Goodbye! Thanks for chatting. '' @ [CHR 0xF0, CHR 0x9F, CHR 0x91, CHR 0x8B]),
                 SessionSummary (formatDuration (fst (elapsed_seconds s))) (length (history s)),
                 Separator, Newline]"
    by (rule stdout_showGoodbye)
qed

theorem history_records_inputs_witness:
  "running (quiet_bot\<lparr>stdin := [''uptime'', ''bye'']\<rparr>) \<and>
   stdin (quiet_bot\<lparr>stdin := [''uptime'', ''bye'']\<rparr>) = [''uptime'', ''bye''] \<and>
   normalize ''uptime'' \<noteq> [] \<and> normalize ''bye'' \<noteq> [] \<and>
   history (chat_loop (quiet_bot\<lparr>stdin := [''uptime'', ''bye'']\<rparr>)) = [''uptime'', ''bye''] \<and>
   stdout (showGoodbye (chat_loop (quiet_bot\<lparr>stdin := [''uptime'', ''bye'']\<rparr>))) =
     [Newline, Prompt,
      Say ([CHR 0xE2, CHR 0x8F, CHR 0xB1, CHR 0xEF, CHR 0xB8, CHR 0x8F] @
           ''  Session uptime: 0h 0m 0s | Messages: 1''),
      Newline, Prompt, Newline, Separator,
      Say (''Goodbye! Thanks for chatting. '' @ [CHR 0xF0, CHR 0x9F, CHR 0x91, CHR 0x8B]),
      SessionSummary ''0h 0m 0s'' 2, Separator, Newline]"
proof -
  define up where "up = [CHR 0xE2, CHR 0x8F, CHR 0xB1, CHR 0xEF, CHR 0xB8, CHR 0x8F] @
           ''  Session uptime: 0h 0m 0s | Messages: 1''"
  define s where "s = quiet_bot\<lparr>stdin := [''uptime'', ''bye'']\<rparr>"
  define s1 where "s1 = quiet_bot\<lparr>stdin := [''bye''], history := [''uptime''],
     stdout := [Newline, Prompt, Say up], observations := 2\<rparr>"
  define f where "f = quiet_bot\<lparr>running := False, stdin := [], history := [''uptime'', ''bye''],
     stdout := [Newline, Prompt, Say up, Newline, Prompt], observations := 2\<rparr>"
  have r: "running s" and i: "stdin s = [''uptime'', ''bye'']"
    by (simp_all add: s_def quiet_bot_def ChatBot_def)
  have n1: "normalize ''uptime'' \<noteq> []" and n2: "normalize ''bye'' \<noteq> []"
    by (simp_all add: normalize_uptime normalize_bye)
  have a: "s\<lparr>stdin := [''bye''], stdout := stdout s @ [Newline, Prompt],
              history := history s @ [''uptime'']\<rparr>
      = quiet_bot\<lparr>stdin := [''bye''], stdout := [Newline, Prompt], history := [''uptime'']\<rparr>"
    by (simp add: s_def quiet_bot_def ChatBot_def)
  have a1: "quiet_bot\<lparr>stdin := [''bye''], history := [''uptime''],
     stdout := [Newline, Prompt, Say ([CHR 0xE2, CHR 0x8F, CHR 0xB1, CHR 0xEF, CHR 0xB8, CHR 0x8F] @
           ''  Session uptime: 0h 0m 0s | Messages: 1'')], observations := 2\<rparr> = s1"
    by (simp add: s1_def up_def)
  have step1: "running s \<and> stdin s = [''uptime'', ''bye''] \<and> normalize ''uptime'' \<noteq> [] \<longrightarrow>
      chat_loop s = chat_loop (processInput
          (s\<lparr>stdin := [''bye''], stdout := stdout s @ [Newline, Prompt],
              history := history s @ [normalize ''uptime'']\<rparr>) (normalize ''uptime''))"
    by (rule history_records_inputs [of s "''uptime''" "[''bye'']", THEN conjunct1])
  have c1: "chat_loop s = chat_loop s1"
    using step1 r i n1 unfolding normalize_uptime a processInput_uptime_quiet a1
    by blast
  have r1: "running s1" and i1: "stdin s1 = [''bye'']"
    by (simp_all add: s1_def quiet_bot_def ChatBot_def)
  have b: "(s1\<lparr>stdin := [], stdout := stdout s1 @ [Newline, Prompt],
              history := history s1 @ [''bye'']\<rparr>)\<lparr>running := False\<rparr> = f"
    by (simp add: s1_def f_def)
  have step2: "running s1 \<and> stdin s1 = [''bye''] \<and> normalize ''bye'' \<noteq> [] \<longrightarrow>
      chat_loop s1 = chat_loop (processInput
          (s1\<lparr>stdin := [], stdout := stdout s1 @ [Newline, Prompt],
              history := history s1 @ [normalize ''bye'']\<rparr>) (normalize ''bye''))"
    by (rule history_records_inputs [of s1 "''bye''" "[]", THEN conjunct1])
  have "chat_loop s1 = chat_loop f"
    using step2 r1 i1 n2 unfolding normalize_bye processInput_bye b
    by blast
  moreover have "chat_loop f = f"
    by (rule chat_loop_stopped) (simp add: f_def)
  ultimately have c: "chat_loop s = f"
    using c1 by simp
  have h: "history (chat_loop s) = [''uptime'', ''bye'']"
    unfolding c by (simp add: f_def)
  have "stdout (showGoodbye f) =
     stdout f @ [Newline, Separator,
                 Say (''Goodbye! Thanks for chatting. '' @ [CHR 0xF0, CHR 0x9F, CHR 0x91, CHR 0x8B]),
                 SessionSummary (formatDuration (fst (elapsed_seconds f))) (length (history f)),
                 Separator, Newline]"
    by (rule history_records_inputs [of f, THEN conjunct2, THEN conjunct2, THEN conjunct2])
  moreover have "fst (elapsed_seconds f) = 0"
    by (simp add: elapsed_seconds_def f_def quiet_bot_def ChatBot_def)
  ultimately have g: "stdout (showGoodbye (chat_loop s)) =
     [Newline, Prompt, Say up,
      Newline, Prompt, Newline, Separator,
      Say (''Goodbye! Thanks for chatting. '' @ [CHR 0xF0, CHR 0x9F, CHR 0x91, CHR 0x8B]),
      SessionSummary ''0h 0m 0s'' 2, Separator, Newline]"
    unfolding c by (simp add: f_def formatDuration_0)
  show ?thesis
    using r i n1 n2 h g unfolding s_def up_def by simp
qed

end
